theory Spec2Isabelle
  imports Complex_Main
begin

section \<open>Numbers, clocks and calendar dates\<close>

text \<open>
  The services are TypeScript.  A JavaScript \<open>Date\<close> is carried here by its time value
  \<open>getTime()\<close>: an integer count of milliseconds since 1970-01-01T00:00:00Z.  A date
  string of the form \<open>YYYY-MM-DD\<close>, which is what \<open>toISOString().split('T')[0]\<close>
  produces, is carried by the index of that UTC calendar day (day 0 is 1970-01-01, a
  Thursday).  Every \<open>new Date()\<close> of the source is a clock reading handed to the model
  as an argument.  The browser's local time zone is a fixed offset \<open>tz\<close> from UTC in
  milliseconds (local time = UTC + tz; +19800000 for Mumbai).

  JavaScript numbers are IEEE doubles.  \<open>fl\<close> rounds a real number to the nearest
  number with 53 significant bits, ties to even; the exponent is not bounded, so for
  magnitudes between \<open>2^-1022\<close> and \<open>2^1024\<close> it is the rounding every double
  operation performs.  The check-out hours and the employee-id counter are computed with
  it, operation by operation.  The geolocation arithmetic is over the reals.
\<close>

definition msPerDay :: int where
  "msPerDay = 1000 * 60 * 60 * 24"

definition msPerHour :: int where
  "msPerHour = 1000 * 60 * 60"

definition isoDate :: "int \<Rightarrow> int" where
  \<comment> \<open>\<open>d.toISOString().split('T')[0]\<close>: the UTC calendar day of a time value\<close>
  "isoDate t = t div msPerDay"

definition getDay :: "int \<Rightarrow> int \<Rightarrow> int" where
  \<comment> \<open>\<open>d.getDay()\<close>: weekday of the local calendar day, 0 = Sunday .. 6 = Saturday\<close>
  "getDay tz t = (((t + tz) div msPerDay) + 4) mod 7"

definition addLocalDay :: "int \<Rightarrow> int" where
  \<comment> \<open>\<open>d.setDate(d.getDate() + 1)\<close>: same local wall-clock time on the next local day\<close>
  "addLocalDay t = t + msPerDay"

definition Math_round :: "real \<Rightarrow> int" where
  \<comment> \<open>\<open>Math.round\<close>: nearest integer, ties towards plus infinity\<close>
  "Math_round x = \<lfloor>x + 1 / 2\<rfloor>"

definition roundHalfEven :: "real \<Rightarrow> int" where
  \<comment> \<open>nearest integer, ties to the even one\<close>
  "roundHalfEven m =
     (let f = \<lfloor>m\<rfloor>
      in if m - real_of_int f < 1 / 2 then f
         else if 1 / 2 < m - real_of_int f then f + 1
         else if even f then f else f + 1)"

definition fl :: "real \<Rightarrow> real" where
  \<comment> \<open>the double nearest to \<open>x\<close>: 53 significant bits, so one unit in the last place
      is \<open>2 ^ (\<lfloor>log2 |x|\<rfloor> - 52)\<close>\<close>
  "fl x =
     (if x = 0 then 0
      else (let e = \<lfloor>log 2 \<bar>x\<bar>\<rfloor> - 52
            in real_of_int (roundHalfEven (x / 2 powr real_of_int e)) * 2 powr real_of_int e))"

section \<open>Geolocation utilities\<close>

record OfficeLocation =
  latitude :: real
  longitude :: real
  radiusMeters :: real

definition Math_atan2 :: "real \<Rightarrow> real \<Rightarrow> real" where
  "Math_atan2 y x =
     (if 0 < x then arctan (y / x)
      else if x < 0 then (if 0 \<le> y then arctan (y / x) + pi else arctan (y / x) - pi)
      else if 0 < y then pi / 2
      else if y < 0 then - (pi / 2)
      else 0)"

definition calculateDistance :: "real \<Rightarrow> real \<Rightarrow> real \<Rightarrow> real \<Rightarrow> real" where
  "calculateDistance lat1 lng1 lat2 lng2 =
     (let R = 6371000;
          phi1 = (lat1 * pi) / 180;
          phi2 = (lat2 * pi) / 180;
          dphi = ((lat2 - lat1) * pi) / 180;
          dlam = ((lng2 - lng1) * pi) / 180;
          a = sin (dphi / 2) * sin (dphi / 2)
              + cos phi1 * cos phi2 * sin (dlam / 2) * sin (dlam / 2);
          c = 2 * Math_atan2 (sqrt a) (sqrt (1 - a))
      in R * c)"

record GeoCheck =
  isWithin :: bool
  distance :: int
  allowedRadius :: real

definition isWithinOfficeRadius :: "OfficeLocation \<Rightarrow> real \<Rightarrow> real \<Rightarrow> GeoCheck" where
  "isWithinOfficeRadius office la lo =
     (let d = calculateDistance la lo (latitude office) (longitude office)
      in \<lparr> isWithin = (d \<le> radiusMeters office),
           distance = Math_round d,
           allowedRadius = radiusMeters office \<rparr>)"

section \<open>Errors thrown by the services\<close>

datatype Error =
    OutsideGeofence int real
  | AlreadyCheckedIn
  | AttendanceNotFound
  | AlreadyCheckedOut
  | EmployeeNotFound
  | InsufficientBalance int int
  | OverlappingDates
  | LeaveNotFound
  | AlreadyProcessed
  | MissingRejectionReason
  | DocumentNotFound
  | DocumentInvalid

section \<open>Attendance service\<close>

datatype AttendanceStatus = Present | Absent | Late | HalfDay | WfhStatus

datatype AttendanceType = Office | Wfh

record Location =
  lat :: real
  lng :: real

record AttendanceRecord =
  a_id :: string
  a_employeeId :: string
  a_employeeName :: string
  a_date :: int
  a_checkIn :: "int option"
  a_checkOut :: "int option"
  a_checkInLocation :: "Location option"
  a_checkOutLocation :: "Location option"
  a_status :: AttendanceStatus
  a_attendanceType :: AttendanceType
  a_workingHours :: "real option option"

record CheckInData =
  ci_employeeId :: string
  ci_employeeName :: string
  ci_location :: Location
  ci_attendanceType :: AttendanceType

text \<open>
  The attendance collection is the list of its documents.  \<open>a_workingHours\<close> is
  \<open>None\<close> while the attribute is unset, \<open>Some None\<close> when the computed number is
  \<open>NaN\<close> and \<open>Some (Some h)\<close> otherwise.
\<close>

definition getAttendanceById :: "AttendanceRecord list \<Rightarrow> string \<Rightarrow> AttendanceRecord option" where
  "getAttendanceById coll attendanceId = find (\<lambda>r. a_id r = attendanceId) coll"

definition getTodayAttendance ::
  "int \<Rightarrow> AttendanceRecord list \<Rightarrow> string \<Rightarrow> AttendanceRecord option" where
  \<comment> \<open>\<open>clock\<close> is this function's own \<open>new Date()\<close>\<close>
  "getTodayAttendance clock coll employeeId =
     (let today = isoDate clock
      in find (\<lambda>r. a_employeeId r = employeeId \<and> a_date r = today) coll)"

definition isLate :: "int \<Rightarrow> int \<Rightarrow> bool" where
  \<comment> \<open>\<open>lateThreshold.setHours(9, 30, 0, 0); now > lateThreshold\<close>, in local time\<close>
  "isLate tz now = ((now + tz) mod msPerDay > 9 * msPerHour + 30 * 60 * 1000)"

definition checkIn ::
  "OfficeLocation \<Rightarrow> int \<Rightarrow> int \<Rightarrow> int \<Rightarrow> string \<Rightarrow> CheckInData \<Rightarrow> AttendanceRecord list
     \<Rightarrow> AttendanceRecord list \<times> (Error + AttendanceRecord)" where
  \<comment> \<open>\<open>now\<close> is the clock reading of \<open>checkIn\<close>, \<open>queryClock\<close> the later one of
      \<open>getTodayAttendance\<close>, \<open>newId\<close> the value of \<open>ID.unique()\<close>\<close>
  "checkIn office tz now queryClock newId data coll =
     (let today = isoDate now;
          geoCheck = isWithinOfficeRadius office (lat (ci_location data)) (lng (ci_location data))
      in if ci_attendanceType data = Office \<and> \<not> isWithin geoCheck
         then (coll, Inl (OutsideGeofence (distance geoCheck) (allowedRadius geoCheck)))
         else case getTodayAttendance queryClock coll (ci_employeeId data) of
                Some existing \<Rightarrow> (coll, Inl AlreadyCheckedIn)
              | None \<Rightarrow>
                  (let attendance =
                         \<lparr> a_id = newId,
                           a_employeeId = ci_employeeId data,
                           a_employeeName = ci_employeeName data,
                           a_date = today,
                           a_checkIn = Some now,
                           a_checkOut = None,
                           a_checkInLocation = Some (ci_location data),
                           a_checkOutLocation = None,
                           a_status = (if ci_attendanceType data = Wfh then WfhStatus
                                       else if isLate tz now then Late else Present),
                           a_attendanceType = ci_attendanceType data,
                           a_workingHours = None \<rparr>
                   in (coll @ [attendance], Inr attendance)))"

definition updateAttendanceDocument ::
  "string \<Rightarrow> (AttendanceRecord \<Rightarrow> AttendanceRecord) \<Rightarrow> AttendanceRecord list \<Rightarrow> AttendanceRecord list" where
  "updateAttendanceDocument docId f coll = map (\<lambda>r. if a_id r = docId then f r else r) coll"

definition checkOut ::
  "int \<Rightarrow> string \<Rightarrow> Location \<Rightarrow> AttendanceRecord list
     \<Rightarrow> AttendanceRecord list \<times> (Error + AttendanceRecord)" where
  \<comment> \<open>\<open>checkOutTime\<close> is the clock reading; an absent \<open>checkIn\<close> parses to an invalid
      date, whose time value is \<open>NaN\<close>, and every comparison with \<open>NaN\<close> is false.
      The subtraction, the division by \<open>1000 * 60 * 60\<close>, the product with 100 and the
      division by 100 are double operations, each rounded by \<open>fl\<close>.\<close>
  "checkOut checkOutTime attendanceId location coll =
     (case getAttendanceById coll attendanceId of
        None \<Rightarrow> (coll, Inl AttendanceNotFound)
      | Some attendance \<Rightarrow>
          if a_checkOut attendance \<noteq> None then (coll, Inl AlreadyCheckedOut)
          else
            (let workingHours =
                   map_option
                     (\<lambda>checkInTime. fl (fl (real_of_int checkOutTime - real_of_int checkInTime)
                                           / real_of_int msPerHour))
                     (a_checkIn attendance);
                 status = (if (case workingHours of None \<Rightarrow> False | Some h \<Rightarrow> h < 4)
                              \<and> a_status attendance \<noteq> WfhStatus
                           then HalfDay else a_status attendance);
                 updated = attendance
                   \<lparr> a_checkOut := Some checkOutTime,
                     a_checkOutLocation := Some location,
                     a_workingHours :=
                       Some (map_option (\<lambda>h. fl (real_of_int (Math_round (fl (h * 100))) / 100))
                               workingHours),
                     a_status := status \<rparr>
             in (updateAttendanceDocument attendanceId (\<lambda>_. updated) coll, Inr updated)))"

section \<open>Employee service\<close>

record LeaveBalance =
  casual :: int
  sick :: int
  earned :: int

datatype BalanceKey = Earned | Sick | Casual

text \<open>
  The \<open>leaveBalance\<close> attribute of an employee document is a string of JSON text.  The
  model keeps a non-empty text by what \<open>JSON.parse\<close> makes of it: the balance object
  it is the \<open>JSON.stringify\<close> image of, or a text that \<open>JSON.parse\<close> throws on.  An
  absent attribute and the empty string, both falsy, are \<open>None\<close>.  Text that parses to
  some other JSON value is outside the model.
\<close>

datatype BalanceText = Unparsable | BalanceJson LeaveBalance

record Employee =
  e_id :: string
  e_name :: string
  e_employeeId :: "string option"
  e_leaveBalance :: "BalanceText option"

definition getEmployee :: "Employee list \<Rightarrow> string \<Rightarrow> Employee option" where
  "getEmployee coll employeeId = find (\<lambda>e. e_id e = employeeId) coll"

definition defaultBalance :: LeaveBalance where
  \<comment> \<open>\<open>{"casual":6,"sick":6,"earned":12}\<close>\<close>
  "defaultBalance = \<lparr> casual = 6, sick = 6, earned = 12 \<rparr>"

definition getLeaveBalance :: "Employee list \<Rightarrow> string \<Rightarrow> LeaveBalance" where
  \<comment> \<open>\<open>EmployeeService.getLeaveBalance\<close>\<close>
  "getLeaveBalance coll employeeId =
     (case getEmployee coll employeeId of
        None \<Rightarrow> \<lparr> casual = 0, sick = 0, earned = 0 \<rparr>
      | Some employee \<Rightarrow>
          (case e_leaveBalance employee of
             None \<Rightarrow> defaultBalance
           | Some Unparsable \<Rightarrow> defaultBalance
           | Some (BalanceJson b) \<Rightarrow> b))"

fun balanceGet :: "LeaveBalance \<Rightarrow> BalanceKey \<Rightarrow> int" where
  "balanceGet b Earned = earned b"
| "balanceGet b Sick = sick b"
| "balanceGet b Casual = casual b"

fun balanceSet :: "LeaveBalance \<Rightarrow> BalanceKey \<Rightarrow> int \<Rightarrow> LeaveBalance" where
  "balanceSet b Earned v = b\<lparr> earned := v \<rparr>"
| "balanceSet b Sick v = b\<lparr> sick := v \<rparr>"
| "balanceSet b Casual v = b\<lparr> casual := v \<rparr>"

definition updateEmployee ::
  "string \<Rightarrow> (Employee \<Rightarrow> Employee) \<Rightarrow> Employee list \<Rightarrow> Error + Employee list" where
  \<comment> \<open>\<open>databases.updateDocument\<close> rejects when no document has the id\<close>
  "updateEmployee employeeId f coll =
     (if list_ex (\<lambda>e. e_id e = employeeId) coll
      then Inr (map (\<lambda>e. if e_id e = employeeId then f e else e) coll)
      else Inl DocumentNotFound)"

definition updateLeaveBalance ::
  "Employee list \<Rightarrow> string \<Rightarrow> BalanceKey \<Rightarrow> int \<Rightarrow> Error + Employee list" where
  "updateLeaveBalance coll employeeId leaveType amount =
     (let balance = getLeaveBalance coll employeeId;
          balance' = balanceSet balance leaveType (max 0 (balanceGet balance leaveType + amount))
      in updateEmployee employeeId (\<lambda>e. e\<lparr> e_leaveBalance := Some (BalanceJson balance') \<rparr>) coll)"

section \<open>Leave service\<close>

datatype LeaveType =
  AnnualLeave | SickLeave | CasualLeave | MaternityLeave | ParentLeave | OptionalLeave

datatype LeaveStatus = Pending | Approved | Rejected

text \<open>
  \<open>l_fromDate\<close> and \<open>l_toDate\<close> hold the time value that \<open>new Date\<close> gives the stored
  date string (UTC midnight of the day for \<open>YYYY-MM-DD\<close>); date strings that do not
  parse are outside the model.
\<close>

record LeaveRequest =
  l_id :: string
  l_employeeId :: string
  l_employeeName :: string
  l_leaveType :: LeaveType
  l_subject :: string
  l_description :: "string option"
  l_fromDate :: int
  l_toDate :: int
  l_days :: int
  l_status :: LeaveStatus
  l_appliedDate :: int
  l_reviewedBy :: "string option"
  l_reviewerName :: "string option"
  l_reviewedDate :: "int option"
  l_comments :: "string option"

record ApplyLeaveData =
  al_employeeId :: string
  al_employeeName :: string
  al_leaveType :: LeaveType
  al_subject :: string
  al_description :: "string option"
  al_fromDate :: int
  al_toDate :: int

record Database =
  employees :: "Employee list"
  leaves :: "LeaveRequest list"

text \<open>
  A collection is the list of its documents in creation order: \<open>createDocument\<close>
  appends, and a listing ordered by descending \<open>$createdAt\<close> reads the list backwards.
\<close>

definition calculateDays :: "int \<Rightarrow> int \<Rightarrow> int" where
  "calculateDays fromDate toDate =
     (let diffTime = \<bar>toDate - fromDate\<bar>;
          diffDays = \<lceil>real_of_int diffTime / real_of_int msPerDay\<rceil> + 1
      in diffDays)"

fun leaveTypeMap :: "LeaveType \<Rightarrow> BalanceKey option" where
  "leaveTypeMap AnnualLeave = Some Earned"
| "leaveTypeMap SickLeave = Some Sick"
| "leaveTypeMap CasualLeave = Some Casual"
| "leaveTypeMap _ = None"

definition stringProperty :: "BalanceText \<Rightarrow> BalanceKey \<Rightarrow> int option" where
  \<comment> \<open>\<open>employee.leaveBalance[balanceKey]\<close>: \<open>leaveBalance\<close> is a string, and a string
      has no property named \<open>earned\<close>, \<open>sick\<close> or \<open>casual\<close>; the lookup is
      \<open>undefined\<close> whatever the text is\<close>
  "stringProperty text key = None"

definition orZero :: "int option \<Rightarrow> int" where
  \<comment> \<open>\<open>v || 0\<close>\<close>
  "orZero v = (case v of None \<Rightarrow> 0 | Some n \<Rightarrow> n)"

definition balanceCheck :: "Employee \<Rightarrow> LeaveType \<Rightarrow> int \<Rightarrow> Error option" where
  \<comment> \<open>the balance test of \<open>applyLeave\<close>; \<open>Some\<close> is the error it throws\<close>
  "balanceCheck employee leaveType days =
     (case leaveTypeMap leaveType of
        None \<Rightarrow> None
      | Some balanceKey \<Rightarrow>
          (case e_leaveBalance employee of
             None \<Rightarrow> None
           | Some text \<Rightarrow>
               (let balance = orZero (stringProperty text balanceKey)
                in if balance < days then Some (InsufficientBalance balance days) else None)))"

definition getLeaveRequests :: "LeaveRequest list \<Rightarrow> string \<Rightarrow> nat \<Rightarrow> LeaveRequest list" where
  \<comment> \<open>\<open>getLeaveRequests({ employeeId, limit })\<close>: the filter is added only for a
      truthy \<open>employeeId\<close>\<close>
  "getLeaveRequests coll employeeId limit =
     take (if limit = 0 then 50 else limit)
       (filter (\<lambda>l. employeeId = [] \<or> l_employeeId l = employeeId) (rev coll))"

definition getEmployeeLeaves :: "LeaveRequest list \<Rightarrow> string \<Rightarrow> LeaveRequest list" where
  "getEmployeeLeaves coll employeeId = getLeaveRequests coll employeeId 100"

definition overlaps :: "ApplyLeaveData \<Rightarrow> LeaveRequest \<Rightarrow> bool" where
  \<comment> \<open>the callback of \<open>existingLeaves.some\<close>\<close>
  "overlaps data leave =
     (if l_status leave = Rejected then False
      else (let leaveFrom = l_fromDate leave;
                leaveTo = l_toDate leave;
                requestFrom = al_fromDate data;
                requestTo = al_toDate data
            in (requestFrom \<ge> leaveFrom \<and> requestFrom \<le> leaveTo)
               \<or> (requestTo \<ge> leaveFrom \<and> requestTo \<le> leaveTo)
               \<or> (requestFrom \<le> leaveFrom \<and> requestTo \<ge> leaveTo)))"

definition applyLeave ::
  "int \<Rightarrow> string \<Rightarrow> ApplyLeaveData \<Rightarrow> Database \<Rightarrow> Database \<times> (Error + LeaveRequest)" where
  "applyLeave now newId data db =
     (let days = calculateDays (al_fromDate data) (al_toDate data)
      in case getEmployee (employees db) (al_employeeId data) of
           None \<Rightarrow> (db, Inl EmployeeNotFound)
         | Some employee \<Rightarrow>
             (case balanceCheck employee (al_leaveType data) days of
                Some err \<Rightarrow> (db, Inl err)
              | None \<Rightarrow>
                  (let existingLeaves = getEmployeeLeaves (leaves db) (al_employeeId data);
                       hasOverlap = list_ex (overlaps data) existingLeaves
                   in if hasOverlap then (db, Inl OverlappingDates)
                      else
                        (let leaveRequest =
                               \<lparr> l_id = newId,
                                 l_employeeId = al_employeeId data,
                                 l_employeeName = al_employeeName data,
                                 l_leaveType = al_leaveType data,
                                 l_subject = al_subject data,
                                 l_description = al_description data,
                                 l_fromDate = al_fromDate data,
                                 l_toDate = al_toDate data,
                                 l_days = days,
                                 l_status = Pending,
                                 l_appliedDate = isoDate now,
                                 l_reviewedBy = None,
                                 l_reviewerName = None,
                                 l_reviewedDate = None,
                                 l_comments = None \<rparr>
                         in (db\<lparr> leaves := leaves db @ [leaveRequest] \<rparr>, Inr leaveRequest)))))"

definition getLeaveById :: "LeaveRequest list \<Rightarrow> string \<Rightarrow> LeaveRequest option" where
  "getLeaveById coll leaveId = find (\<lambda>l. l_id l = leaveId) coll"

definition updateLeaveDocument ::
  "string \<Rightarrow> (LeaveRequest \<Rightarrow> LeaveRequest) \<Rightarrow> LeaveRequest list \<Rightarrow> LeaveRequest list" where
  "updateLeaveDocument docId f coll = map (\<lambda>l. if l_id l = docId then f l else l) coll"

definition leaveUpdateAccepted :: "string \<Rightarrow> string \<Rightarrow> string \<Rightarrow> bool" where
  \<comment> \<open>the leaves collection is created with string attributes \<open>reviewedBy\<close> (255),
      \<open>reviewerName\<close> (255) and \<open>comments\<close> (2000); \<open>databases.updateDocument\<close>
      rejects a document with a longer value\<close>
  "leaveUpdateAccepted reviewedBy reviewerName comments =
     (length reviewedBy \<le> 255 \<and> length reviewerName \<le> 255 \<and> length comments \<le> 2000)"

definition approvalComments :: "string option \<Rightarrow> string" where
  \<comment> \<open>\<open>comments || 'Leave request approved.'\<close>\<close>
  "approvalComments comments =
     (case comments of
        None \<Rightarrow> ''Leave request approved.''
      | Some c \<Rightarrow> if c = [] then ''Leave request approved.'' else c)"

definition approveLeave ::
  "int \<Rightarrow> string \<Rightarrow> string \<Rightarrow> string \<Rightarrow> string option \<Rightarrow> Database
     \<Rightarrow> Database \<times> (Error + LeaveRequest)" where
  \<comment> \<open>two writes, awaited one after the other: the balance first, then the request.
      When the second is rejected the first stays written.\<close>
  "approveLeave now leaveId reviewedBy reviewerName comments db =
     (case getLeaveById (leaves db) leaveId of
        None \<Rightarrow> (db, Inl LeaveNotFound)
      | Some leave \<Rightarrow>
          if l_status leave \<noteq> Pending then (db, Inl AlreadyProcessed)
          else
            (case (case leaveTypeMap (l_leaveType leave) of
                     Some balanceKey \<Rightarrow>
                       updateLeaveBalance (employees db) (l_employeeId leave) balanceKey (- l_days leave)
                   | None \<Rightarrow> Inr (employees db)) of
               Inl err \<Rightarrow> (db, Inl err)
             | Inr employees' \<Rightarrow>
                 (let comments' = approvalComments comments;
                      updated = leave
                        \<lparr> l_status := Approved,
                          l_reviewedBy := Some reviewedBy,
                          l_reviewerName := Some reviewerName,
                          l_reviewedDate := Some (isoDate now),
                          l_comments := Some comments' \<rparr>
                  in if leaveUpdateAccepted reviewedBy reviewerName comments'
                     then (\<lparr> employees = employees',
                             leaves = updateLeaveDocument leaveId (\<lambda>_. updated) (leaves db) \<rparr>,
                           Inr updated)
                     else (\<lparr> employees = employees', leaves = leaves db \<rparr>, Inl DocumentInvalid))))"

definition rejectLeave ::
  "int \<Rightarrow> string \<Rightarrow> string \<Rightarrow> string \<Rightarrow> string \<Rightarrow> Database
     \<Rightarrow> Database \<times> (Error + LeaveRequest)" where
  "rejectLeave now leaveId reviewedBy reviewerName comments db =
     (if comments = [] then (db, Inl MissingRejectionReason)
      else case getLeaveById (leaves db) leaveId of
             None \<Rightarrow> (db, Inl LeaveNotFound)
           | Some leave \<Rightarrow>
               if l_status leave \<noteq> Pending then (db, Inl AlreadyProcessed)
               else
                 (let updated = leave
                        \<lparr> l_status := Rejected,
                          l_reviewedBy := Some reviewedBy,
                          l_reviewerName := Some reviewerName,
                          l_reviewedDate := Some (isoDate now),
                          l_comments := Some comments \<rparr>
                  in if leaveUpdateAccepted reviewedBy reviewerName comments
                     then (db\<lparr> leaves := updateLeaveDocument leaveId (\<lambda>_. updated) (leaves db) \<rparr>,
                           Inr updated)
                     else (db, Inl DocumentInvalid)))"

section \<open>Task service\<close>

datatype TaskStatus = TaskPending | InProgress | Completed | Accepted | TaskRejected

record Task =
  t_id :: string
  t_title :: string
  t_assignedTo :: string
  t_status :: TaskStatus
  t_dueDate :: int
  t_rejectionNote :: "string option"
  t_completionNotes :: "string option"

lemma getDay_addLocalDay: "getDay tz (addLocalDay t) = (getDay tz t + 1) mod 7"
proof -
  have "(t + msPerDay + tz) div msPerDay = (t + tz) div msPerDay + 1"
    by (simp add: msPerDay_def)
  then show ?thesis
    by (simp add: getDay_def addLocalDay_def add.commute add.left_commute mod_simps)
qed

function skipWeekend :: "int \<Rightarrow> int \<Rightarrow> int" where
  \<comment> \<open>\<open>while (d.getDay() === 0 || d.getDay() === 6) d.setDate(d.getDate() + 1)\<close>\<close>
  "skipWeekend tz t =
     (if getDay tz t = 0 \<or> getDay tz t = 6 then skipWeekend tz (addLocalDay t) else t)"
  by pat_completeness auto
termination
  by (relation "measure (\<lambda>(tz, t). nat ((8 - getDay tz t) mod 7))")
     (auto simp: getDay_addLocalDay)

declare skipWeekend.simps [simp del]

definition rejectTask ::
  "int \<Rightarrow> int \<Rightarrow> string \<Rightarrow> string \<Rightarrow> Task list \<Rightarrow> Task list \<times> (Error + Task)" where
  "rejectTask tz now taskId rejectionNote coll =
     (let tomorrow = skipWeekend tz (addLocalDay now);
          newDueDate = isoDate tomorrow
      in case find (\<lambda>t. t_id t = taskId) coll of
           None \<Rightarrow> (coll, Inl DocumentNotFound)
         | Some task \<Rightarrow>
             (let updated = task\<lparr> t_status := TaskRejected,
                                  t_rejectionNote := Some rejectionNote,
                                  t_dueDate := newDueDate \<rparr>
              in (map (\<lambda>t. if t_id t = taskId then updated else t) coll, Inr updated)))"

section \<open>Employee id generation on the relay server\<close>

definition isDigit :: "char \<Rightarrow> bool" where
  "isDigit c = (c \<in> set ''0123456789'')"

definition matchGW :: "string \<Rightarrow> string option" where
  \<comment> \<open>\<open>s.match(/^GW-(\d+)$/)\<close>: the captured digits\<close>
  "matchGW s =
     (if take 3 s = ''GW-'' \<and> drop 3 s \<noteq> [] \<and> list_all isDigit (drop 3 s)
      then Some (drop 3 s) else None)"

definition digitVal :: "char \<Rightarrow> nat" where
  "digitVal c = of_char c - 48"

definition digitsValue :: "string \<Rightarrow> nat" where
  \<comment> \<open>the integer a string of decimal digits denotes\<close>
  "digitsValue ds = foldl (\<lambda>n c. 10 * n + digitVal c) 0 ds"

definition parseInt10 :: "string \<Rightarrow> real" where
  \<comment> \<open>\<open>parseInt(ds, 10)\<close> on a string of decimal digits: the double nearest to the
      integer denoted (past the 20th significant digit ECMAScript lets an engine
      approximate further)\<close>
  "parseInt10 ds = fl (real (digitsValue ds))"

definition digitChar :: "nat \<Rightarrow> char" where
  "digitChar d = ''0123456789'' ! d"

fun toString :: "nat \<Rightarrow> string" where
  "toString n = (if n < 10 then [digitChar n] else toString (n div 10) @ [digitChar (n mod 10)])"

declare toString.simps [simp del]

definition Number_toString :: "real \<Rightarrow> string option" where
  \<comment> \<open>\<open>x.toString()\<close> for a double: the decimal digits when \<open>x\<close> is a whole number up
      to \<open>2^53\<close>.  Above that the source prints the shortest digits that read back as
      \<open>x\<close>, and exponent notation from \<open>1e21\<close>; those strings are not modelled and the
      result is \<open>None\<close>.\<close>
  "Number_toString x =
     (if 0 \<le> x \<and> x \<le> 2 ^ 53 \<and> x = real_of_int \<lfloor>x\<rfloor> then Some (toString (nat \<lfloor>x\<rfloor>)) else None)"

definition padStart :: "nat \<Rightarrow> char \<Rightarrow> string \<Rightarrow> string" where
  "padStart targetLength c s = replicate (targetLength - length s) c @ s"

definition slice_last :: "nat \<Rightarrow> string \<Rightarrow> string" where
  \<comment> \<open>\<open>s.slice(-k)\<close>\<close>
  "slice_last k s = drop (length s - k) s"

definition scanEmployee :: "real \<Rightarrow> Employee \<Rightarrow> real" where
  \<comment> \<open>the body of the loop over \<open>employees.documents\<close>\<close>
  "scanEmployee maxNumber emp =
     (case e_employeeId emp of
        None \<Rightarrow> maxNumber
      | Some s \<Rightarrow>
          if s = [] then maxNumber
          else (case matchGW s of
                  None \<Rightarrow> maxNumber
                | Some ds \<Rightarrow>
                    (let num = parseInt10 ds in if num > maxNumber then num else maxNumber)))"

definition generateEmployeeId :: "bool \<Rightarrow> nat \<Rightarrow> Employee list \<Rightarrow> string option" where
  \<comment> \<open>\<open>listingOk\<close>: \<open>databases.listDocuments\<close> resolves; otherwise the catch branch
      builds the id from \<open>Date.now()\<close>.  The result is \<open>None\<close> where
      \<open>Number_toString\<close> is.\<close>
  "generateEmployeeId listingOk clock coll =
     (if listingOk
      then (let documents = take 100 (rev coll);
                maxNumber = foldl scanEmployee 0 documents;
                nextNumber = fl (maxNumber + 1)
            in map_option (\<lambda>digits. ''GW-'' @ padStart 6 CHR ''0'' digits) (Number_toString nextNumber))
      else map_option (\<lambda>digits. (let timestamp = slice_last 6 digits in ''GW-'' @ timestamp))
             (Number_toString (real clock)))"

section \<open>Reference predicates and concrete scenarios\<close>

definition oneRecordPerDay :: "AttendanceRecord list \<Rightarrow> bool" where
  "oneRecordPerDay coll = distinct (map (\<lambda>r. (a_employeeId r, a_date r)) coll)"

definition ex_office :: OfficeLocation where
  "ex_office = \<lparr> latitude = 0, longitude = 0, radiusMeters = 100 \<rparr>"

definition ex_checkIn :: "AttendanceType \<Rightarrow> CheckInData" where
  "ex_checkIn ty = \<lparr> ci_employeeId = ''e1'', ci_employeeName = ''Asha'',
                     ci_location = \<lparr> lat = 0, lng = 180 \<rparr>, ci_attendanceType = ty \<rparr>"

definition ex_attendance :: "AttendanceStatus \<Rightarrow> AttendanceType \<Rightarrow> AttendanceRecord" where
  "ex_attendance st ty =
     \<lparr> a_id = ''a1'', a_employeeId = ''e1'', a_employeeName = ''Asha'', a_date = 0,
       a_checkIn = Some 0, a_checkOut = None,
       a_checkInLocation = Some \<lparr> lat = 0, lng = 180 \<rparr>, a_checkOutLocation = None,
       a_status = st, a_attendanceType = ty, a_workingHours = None \<rparr>"

definition standardOverlap :: "ApplyLeaveData \<Rightarrow> LeaveRequest \<Rightarrow> bool" where
  "standardOverlap data leave =
     (l_employeeId leave = al_employeeId data \<and> l_status leave \<noteq> Rejected
      \<and> al_fromDate data \<le> l_toDate leave \<and> al_toDate data \<ge> l_fromDate leave)"

definition ex_employee :: "BalanceText option \<Rightarrow> Employee" where
  "ex_employee text = \<lparr> e_id = ''e1'', e_name = ''Asha'', e_employeeId = Some ''GW-000001'',
                         e_leaveBalance = text \<rparr>"

definition ex_apply :: "LeaveType \<Rightarrow> int \<Rightarrow> int \<Rightarrow> ApplyLeaveData" where
  "ex_apply ty fromDay toDay =
     \<lparr> al_employeeId = ''e1'', al_employeeName = ''Asha'', al_leaveType = ty,
       al_subject = ''Leave'', al_description = None,
       al_fromDate = fromDay * msPerDay, al_toDate = toDay * msPerDay \<rparr>"

definition ex_leave :: "string \<Rightarrow> LeaveType \<Rightarrow> int \<Rightarrow> int \<Rightarrow> LeaveStatus \<Rightarrow> LeaveRequest" where
  "ex_leave docId ty fromDay toDay st =
     \<lparr> l_id = docId, l_employeeId = ''e1'', l_employeeName = ''Asha'', l_leaveType = ty,
       l_subject = ''Leave'', l_description = None,
       l_fromDate = fromDay * msPerDay, l_toDate = toDay * msPerDay,
       l_days = \<bar>toDay - fromDay\<bar> + 1, l_status = st, l_appliedDate = 0,
       l_reviewedBy = None, l_reviewerName = None, l_reviewedDate = None, l_comments = None \<rparr>"

definition ex_history :: "LeaveRequest list" where
  \<comment> \<open>one pending request for day 0, then a hundred later ones for days 11 to 110\<close>
  "ex_history = ex_leave ''old'' MaternityLeave 0 0 Pending
                # map (\<lambda>i. ex_leave (toString i) MaternityLeave (10 + int i) (10 + int i) Pending) [1..<101]"

definition weekdayOfDate :: "int \<Rightarrow> int" where
  \<comment> \<open>weekday of a calendar day index, 0 = Sunday .. 6 = Saturday\<close>
  "weekdayOfDate d = (d + 4) mod 7"

definition nextWorkingDay :: "int \<Rightarrow> int" where
  \<comment> \<open>the earliest day strictly after \<open>d\<close> that is neither Saturday nor Sunday\<close>
  "nextWorkingDay d =
     (if weekdayOfDate (d + 1) = 6 then d + 3
      else if weekdayOfDate (d + 1) = 0 then d + 2
      else d + 1)"

definition ex_task :: Task where
  "ex_task = \<lparr> t_id = ''t1'', t_title = ''Report'', t_assignedTo = ''e1'', t_status = Completed,
               t_dueDate = 19726, t_rejectionNote = None, t_completionNotes = None \<rparr>"

definition employeeNumber :: "Employee \<Rightarrow> nat option" where
  \<comment> \<open>the numeric suffix of an employee id of the form \<open>GW-<digits>\<close>\<close>
  "employeeNumber emp =
     (case e_employeeId emp of None \<Rightarrow> None | Some s \<Rightarrow> map_option digitsValue (matchGW s))"

definition ex_staff :: "Employee list" where
  "ex_staff =
     [\<lparr> e_id = ''e1'', e_name = ''Asha'', e_employeeId = Some ''GW-000007'', e_leaveBalance = None \<rparr>,
      \<lparr> e_id = ''e2'', e_name = ''Ravi'', e_employeeId = Some ''GW-000012'', e_leaveBalance = None \<rparr>,
      \<lparr> e_id = ''e3'', e_name = ''Mina'', e_employeeId = None, e_leaveBalance = None \<rparr>,
      \<lparr> e_id = ''e4'', e_name = ''Omar'', e_employeeId = Some ''EMP-40'', e_leaveBalance = None \<rparr>]"

definition ex_staffer :: "string \<Rightarrow> Employee" where
  "ex_staffer gwId = \<lparr> e_id = ''e9'', e_name = ''Lee'', e_employeeId = Some gwId, e_leaveBalance = None \<rparr>"

definition highestNumber :: "Employee list \<Rightarrow> nat" where
  "highestNumber docs = Max (set (0 # List.map_filter employeeNumber docs))"

section \<open>Properties of the geolocation utilities\<close>

lemma Math_atan2_zero_one: "Math_atan2 0 1 = 0"
  by (simp add: Math_atan2_def)

lemma sin_half_swap:
  "sin (((a - b) * pi) / 180 / 2) * sin (((a - b) * pi) / 180 / 2)
   = sin (((b - a) * pi) / 180 / 2) * sin (((b - a) * pi) / 180 / 2)"
proof -
  have "((a - b) * pi) / 180 / 2 = - (((b - a) * pi) / 180 / 2)"
    by (simp add: field_simps)
  then show ?thesis by (simp only: sin_minus)
qed

text \<open>
  C8. The Haversine distance from a point to itself is 0, and the distance between two
  points does not depend on the order in which they are given.
\<close>

theorem calculateDistance_self_symmetric:
  "calculateDistance lat1 lng1 lat1 lng1 = 0
   \<and> calculateDistance lat1 lng1 lat2 lng2 = calculateDistance lat2 lng2 lat1 lng1"
proof
  show "calculateDistance lat1 lng1 lat1 lng1 = 0"
    by (simp add: calculateDistance_def Let_def Math_atan2_zero_one)
next
  have a_eq: "sin (((lat2 - lat1) * pi) / 180 / 2) * sin (((lat2 - lat1) * pi) / 180 / 2)
                + cos ((lat1 * pi) / 180) * cos ((lat2 * pi) / 180)
                  * sin (((lng2 - lng1) * pi) / 180 / 2) * sin (((lng2 - lng1) * pi) / 180 / 2)
            = sin (((lat1 - lat2) * pi) / 180 / 2) * sin (((lat1 - lat2) * pi) / 180 / 2)
                + cos ((lat2 * pi) / 180) * cos ((lat1 * pi) / 180)
                  * sin (((lng1 - lng2) * pi) / 180 / 2) * sin (((lng1 - lng2) * pi) / 180 / 2)"
    using sin_half_swap [of lat2 lat1] sin_half_swap [of lng2 lng1]
    by (simp add: mult.assoc mult.left_commute)
  show "calculateDistance lat1 lng1 lat2 lng2 = calculateDistance lat2 lng2 lat1 lng1"
    unfolding calculateDistance_def Let_def using a_eq by (simp only:)
qed

section \<open>Properties of the attendance service\<close>

lemma calculateDistance_antipode: "calculateDistance 0 180 0 0 = 6371000 * pi"
  by (simp add: calculateDistance_def Let_def Math_atan2_def)

lemma ex_outside: "\<not> isWithin (isWithinOfficeRadius ex_office 0 180)"
  using pi_ge_two by (simp add: isWithinOfficeRadius_def Let_def ex_office_def calculateDistance_antipode)


lemma getTodayAttendance_None_iff:
  "(getTodayAttendance clock coll e = None)
   = (\<not> (\<exists>r \<in> set coll. a_employeeId r = e \<and> a_date r = isoDate clock))"
  by (auto simp: getTodayAttendance_def Let_def find_None_iff)



lemma checkIn_existing:
  assumes "\<exists>r \<in> set coll. a_employeeId r = ci_employeeId data \<and> a_date r = isoDate queryClock"
  shows "checkIn office tz now queryClock newId data coll =
           (coll, Inl (if ci_attendanceType data = Office
                          \<and> \<not> isWithin (isWithinOfficeRadius office (lat (ci_location data)) (lng (ci_location data)))
                       then OutsideGeofence
                              (distance (isWithinOfficeRadius office (lat (ci_location data)) (lng (ci_location data))))
                              (allowedRadius (isWithinOfficeRadius office (lat (ci_location data)) (lng (ci_location data))))
                       else AlreadyCheckedIn))"
proof -
  from assms have "getTodayAttendance queryClock coll (ci_employeeId data) \<noteq> None"
    by (simp add: getTodayAttendance_None_iff)
  then obtain ex where "getTodayAttendance queryClock coll (ci_employeeId data) = Some ex"
    by blast
  then show ?thesis
    by (simp add: checkIn_def Let_def)
qed

lemma checkIn_result:
  "checkIn office tz now queryClock newId data coll = (coll', Inr r)
   \<Longrightarrow> coll' = coll @ [r] \<and> a_employeeId r = ci_employeeId data \<and> a_date r = isoDate now
       \<and> getTodayAttendance queryClock coll (ci_employeeId data) = None"
  by (auto simp: checkIn_def Let_def split: if_splits option.splits)

lemma checkIn_error:
  "checkIn office tz now queryClock newId data coll = (coll', Inl e) \<Longrightarrow> coll' = coll"
  by (auto simp: checkIn_def Let_def split: if_splits option.splits)

lemma checkIn_keeps_oneRecordPerDay:
  assumes same: "isoDate queryClock = isoDate now" and inv: "oneRecordPerDay coll"
  shows "oneRecordPerDay (fst (checkIn office tz now queryClock newId data coll))"
proof (cases "checkIn office tz now queryClock newId data coll")
  case (Pair coll' res)
  show ?thesis
  proof (cases res)
    case (Inl e)
    with Pair have "coll' = coll" using checkIn_error by blast
    with Pair inv show ?thesis by simp
  next
    case (Inr r)
    with Pair have r: "coll' = coll @ [r]" "a_employeeId r = ci_employeeId data"
        "a_date r = isoDate now" "getTodayAttendance queryClock coll (ci_employeeId data) = None"
      using checkIn_result by blast+
    from r(4) same have "\<forall>x \<in> set coll. \<not> (a_employeeId x = ci_employeeId data \<and> a_date x = isoDate now)"
      by (simp add: getTodayAttendance_None_iff)
    with r(2,3) have "(a_employeeId r, a_date r) \<notin> set (map (\<lambda>r. (a_employeeId r, a_date r)) coll)"
      by auto
    with inv r(1) Pair show ?thesis
      by (simp add: oneRecordPerDay_def)
  qed
qed

text \<open>
  C4, as amended. When a record of the employee already exists for the date that
  \<open>getTodayAttendance\<close> reads, \<open>checkIn\<close> throws and the collection is unchanged: the
  error is the geofence error for an office check-in outside the radius (that test comes
  first) and \<open>You have already checked in today.\<close> otherwise.  When both clock readings
  of one check-in fall on the same UTC date, \<open>checkIn\<close> keeps at most one record per
  (employeeId, date), and a later check-in of the same employee that reads that date
  fails.
\<close>

theorem checkIn_at_most_one_per_day:
  "((\<exists>r \<in> set coll. a_employeeId r = ci_employeeId data \<and> a_date r = isoDate queryClock)
      \<longrightarrow> (\<exists>e. checkIn office tz now queryClock newId data coll = (coll, Inl e))
          \<and> ((ci_attendanceType data = Wfh
               \<or> isWithin (isWithinOfficeRadius office (lat (ci_location data)) (lng (ci_location data))))
              \<longrightarrow> checkIn office tz now queryClock newId data coll = (coll, Inl AlreadyCheckedIn)))
   \<and> (isoDate queryClock = isoDate now \<and> oneRecordPerDay coll
      \<longrightarrow> oneRecordPerDay (fst (checkIn office tz now queryClock newId data coll)))
   \<and> (checkIn office tz now queryClock newId data coll = (coll', Inr r)
        \<and> ci_employeeId data' = ci_employeeId data \<and> isoDate queryClock' = isoDate now
      \<longrightarrow> (\<exists>e. checkIn office tz now' queryClock' newId' data' coll' = (coll', Inl e)))"
proof (intro conjI impI)
  assume ex: "\<exists>r \<in> set coll. a_employeeId r = ci_employeeId data \<and> a_date r = isoDate queryClock"
  show "\<exists>e. checkIn office tz now queryClock newId data coll = (coll, Inl e)"
    using checkIn_existing [OF ex] by blast
  assume "ci_attendanceType data = Wfh
     \<or> isWithin (isWithinOfficeRadius office (lat (ci_location data)) (lng (ci_location data)))"
  then show "checkIn office tz now queryClock newId data coll = (coll, Inl AlreadyCheckedIn)"
    using checkIn_existing [OF ex, of office tz now newId] by auto
next
  assume "isoDate queryClock = isoDate now \<and> oneRecordPerDay coll"
  then show "oneRecordPerDay (fst (checkIn office tz now queryClock newId data coll))"
    using checkIn_keeps_oneRecordPerDay by blast
next
  assume a: "checkIn office tz now queryClock newId data coll = (coll', Inr r)
        \<and> ci_employeeId data' = ci_employeeId data \<and> isoDate queryClock' = isoDate now"
  then have "coll' = coll @ [r]" "a_employeeId r = ci_employeeId data" "a_date r = isoDate now"
    using checkIn_result by blast+
  with a have "\<exists>x \<in> set coll'. a_employeeId x = ci_employeeId data' \<and> a_date x = isoDate queryClock'"
    by auto
  from checkIn_existing [OF this] show "\<exists>e. checkIn office tz now' queryClock' newId' data' coll' = (coll', Inl e)"
    by blast
qed


theorem checkIn_at_most_one_per_day_witness:
  "checkIn ex_office 0 0 0 ''a2'' (ex_checkIn Wfh) [ex_attendance Present Office]
     = ([ex_attendance Present Office], Inl AlreadyCheckedIn)
   \<and> oneRecordPerDay (fst (checkIn ex_office 0 0 0 ''a1'' (ex_checkIn Wfh) []))
   \<and> (\<exists>e. checkIn ex_office 0 5 5 ''a2'' (ex_checkIn Office)
              [ex_attendance WfhStatus Wfh] = ([ex_attendance WfhStatus Wfh], Inl e))"
proof -
  have first: "checkIn ex_office 0 0 0 ''a1'' (ex_checkIn Wfh) []
                 = ([ex_attendance WfhStatus Wfh], Inr (ex_attendance WfhStatus Wfh))"
    by (simp add: checkIn_def Let_def getTodayAttendance_def ex_checkIn_def ex_attendance_def isoDate_def)
  have day: "isoDate 5 = isoDate 0"
    by (simp add: isoDate_def msPerDay_def)
  show ?thesis
    using first day
      checkIn_at_most_one_per_day [where coll = "[ex_attendance Present Office]" and data = "ex_checkIn Wfh"
        and queryClock = 0 and now = 0 and office = ex_office and tz = 0 and newId = "''a2''"
        and coll' = "[]" and data' = "ex_checkIn Wfh" and queryClock' = 0]
      checkIn_at_most_one_per_day [where coll = "[]" and data = "ex_checkIn Wfh"
        and queryClock = 0 and now = 0 and office = ex_office and tz = 0 and newId = "''a1''"
        and coll' = "[ex_attendance WfhStatus Wfh]" and r = "ex_attendance WfhStatus Wfh"
        and data' = "ex_checkIn Office" and queryClock' = 5 and now' = 5 and newId' = "''a2''"]
    by (simp add: oneRecordPerDay_def ex_checkIn_def ex_attendance_def isoDate_def)
qed

text \<open>
  C4 as stated fails twice.  With a record for today in place, an office check-in outside
  the radius is rejected by the geofence test, not with \<open>You have already checked in
  today.\<close>  And when \<open>checkIn\<close> reads the clock one millisecond before UTC midnight and
  \<open>getTodayAttendance\<close> reads it at midnight, the lookup is for the next day, finds
  nothing, and a second record is created for the same employee and date.
\<close>

theorem checkIn_second_counterexample:
  "checkIn ex_office 0 0 0 ''a2'' (ex_checkIn Office) [ex_attendance Present Office]
     \<noteq> ([ex_attendance Present Office], Inl AlreadyCheckedIn)
   \<and> \<not> oneRecordPerDay
         (fst (checkIn ex_office 0 86399999 86400000 ''a2'' (ex_checkIn Wfh) [ex_attendance Present Office]))"
proof
  show "checkIn ex_office 0 0 0 ''a2'' (ex_checkIn Office) [ex_attendance Present Office]
     \<noteq> ([ex_attendance Present Office], Inl AlreadyCheckedIn)"
    using ex_outside by (simp add: checkIn_def Let_def ex_checkIn_def)
next
  have "getTodayAttendance 86400000 [ex_attendance Present Office] ''e1'' = None"
    by (simp add: getTodayAttendance_def Let_def ex_attendance_def isoDate_def msPerDay_def)
  then show "\<not> oneRecordPerDay
         (fst (checkIn ex_office 0 86399999 86400000 ''a2'' (ex_checkIn Wfh) [ex_attendance Present Office]))"
    by (simp add: checkIn_def Let_def ex_checkIn_def ex_attendance_def oneRecordPerDay_def
          isoDate_def msPerDay_def)
qed

section \<open>Properties of the leave service\<close>

lemma balanceCheck_mapped:
  assumes "leaveTypeMap ty = Some key" and "e_leaveBalance employee = Some balanceText"
  shows "balanceCheck employee ty days = (if 0 < days then Some (InsufficientBalance 0 days) else None)"
  using assms by (simp add: balanceCheck_def stringProperty_def orZero_def Let_def)

lemma calculateDays_pos: "1 \<le> calculateDays fromDate toDate"
proof -
  have "0 \<le> real_of_int \<bar>toDate - fromDate\<bar> / real_of_int msPerDay"
    by (simp add: msPerDay_def)
  then have "0 \<le> \<lceil>real_of_int \<bar>toDate - fromDate\<bar> / real_of_int msPerDay\<rceil>"
    by linarith
  then show ?thesis by (simp add: calculateDays_def Let_def)
qed

lemma calculateDays_whole: "calculateDays (a * msPerDay) (b * msPerDay) = \<bar>b - a\<bar> + 1"
proof -
  have eq: "b * msPerDay - a * msPerDay = (b - a) * msPerDay"
    by (simp add: left_diff_distrib)
  have "\<bar>b * msPerDay - a * msPerDay\<bar> = \<bar>b - a\<bar> * msPerDay"
    unfolding eq abs_mult by (simp add: msPerDay_def)
  then have r: "real_of_int \<bar>b * msPerDay - a * msPerDay\<bar> / real_of_int msPerDay = real_of_int \<bar>b - a\<bar>"
    by (simp add: msPerDay_def)
  show ?thesis
    unfolding calculateDays_def Let_def r by (simp only: ceiling_of_int)
qed

lemma applyLeave_mapped_always_rejected:
  assumes "getEmployee (employees db) (al_employeeId data) = Some employee"
      and "leaveTypeMap (al_leaveType data) = Some key"
      and "e_leaveBalance employee = Some balanceText"
  shows "applyLeave now newId data db
           = (db, Inl (InsufficientBalance 0 (calculateDays (al_fromDate data) (al_toDate data))))"
  using assms calculateDays_pos [of "al_fromDate data" "al_toDate data"]
  by (simp add: applyLeave_def Let_def balanceCheck_mapped)

text \<open>
  C1 at a failing input. An employee whose stored balance is the default
  \<open>{"casual":6,"sick":6,"earned":12}\<close> asks for one day of Casual Leave.  The balance
  for the mapped type is 6 and the request is for 1 day, yet \<open>applyLeave\<close> throws
  the insufficient-balance error with a balance of 0: it indexes the JSON string itself,
  which \<open>applyLeave_mapped_always_rejected\<close> shows happens for every stored text.
\<close>

theorem applyLeave_rejects_sufficient_balance:
  "balanceGet (getLeaveBalance [ex_employee (Some (BalanceJson defaultBalance))] ''e1'') Casual = 6
   \<and> calculateDays (al_fromDate (ex_apply CasualLeave 0 0)) (al_toDate (ex_apply CasualLeave 0 0)) = 1
   \<and> applyLeave 0 ''l1'' (ex_apply CasualLeave 0 0)
        \<lparr> employees = [ex_employee (Some (BalanceJson defaultBalance))], leaves = [] \<rparr>
      = (\<lparr> employees = [ex_employee (Some (BalanceJson defaultBalance))], leaves = [] \<rparr>,
         Inl (InsufficientBalance 0 1))"
proof -
  have d: "calculateDays (al_fromDate (ex_apply CasualLeave 0 0)) (al_toDate (ex_apply CasualLeave 0 0)) = 1"
    using calculateDays_whole [of 0 0] by (simp add: ex_apply_def)
  have b: "balanceGet (getLeaveBalance [ex_employee (Some (BalanceJson defaultBalance))] ''e1'') Casual = 6"
    by (simp add: getLeaveBalance_def getEmployee_def ex_employee_def defaultBalance_def)
  have "applyLeave 0 ''l1'' (ex_apply CasualLeave 0 0)
        \<lparr> employees = [ex_employee (Some (BalanceJson defaultBalance))], leaves = [] \<rparr>
      = (\<lparr> employees = [ex_employee (Some (BalanceJson defaultBalance))], leaves = [] \<rparr>,
         Inl (InsufficientBalance 0
           (calculateDays (al_fromDate (ex_apply CasualLeave 0 0)) (al_toDate (ex_apply CasualLeave 0 0)))))"
    by (rule applyLeave_mapped_always_rejected [where key = Casual and balanceText = "BalanceJson defaultBalance"
          and employee = "ex_employee (Some (BalanceJson defaultBalance))"])
       (simp_all add: getEmployee_def ex_employee_def ex_apply_def)
  with d b show ?thesis by simp
qed

lemma overlaps_standard:
  assumes "al_fromDate data \<le> al_toDate data" and "l_fromDate leave \<le> l_toDate leave"
  shows "overlaps data leave
         = (l_status leave \<noteq> Rejected
            \<and> al_fromDate data \<le> l_toDate leave \<and> al_toDate data \<ge> l_fromDate leave)"
  using assms by (auto simp: overlaps_def Let_def)

lemma getEmployeeLeaves_all:
  assumes "employeeId \<noteq> []" and "length (filter (\<lambda>l. l_employeeId l = employeeId) coll) \<le> 100"
  shows "set (getEmployeeLeaves coll employeeId) = {l \<in> set coll. l_employeeId l = employeeId}"
proof -
  have "length (filter (\<lambda>l. l_employeeId l = employeeId) (rev coll)) \<le> 100"
    using assms(2) by (simp flip: rev_filter)
  then show ?thesis
    using assms(1) by (auto simp: getEmployeeLeaves_def getLeaveRequests_def)
qed

lemma applyLeave_overlap_iff:
  assumes "getEmployee (employees db) (al_employeeId data) = Some employee"
      and "balanceCheck employee (al_leaveType data)
             (calculateDays (al_fromDate data) (al_toDate data)) = None"
  shows "(applyLeave now newId data db = (db, Inl OverlappingDates))
         = (\<exists>l \<in> set (getEmployeeLeaves (leaves db) (al_employeeId data)). overlaps data l)"
  using assms by (auto simp: applyLeave_def Let_def list_ex_iff)

text \<open>
  C3, as amended. For an application that reaches the overlap test (the employee is found
  and the balance test does not throw), \<open>applyLeave\<close> throws the overlapping-dates error
  exactly when one of the (at most 100) most recently created requests of the employee is
  not rejected and passes the three-clause test of the code.  When the employee has at
  most 100 requests and the new range and every stored range run forwards (from \<le> to),
  that is exactly when some non-rejected request of the employee satisfies
  new.from \<le> existing.to and new.to \<ge> existing.from.
\<close>

theorem applyLeave_overlap:
  assumes "getEmployee (employees db) (al_employeeId data) = Some employee"
      and "balanceCheck employee (al_leaveType data)
             (calculateDays (al_fromDate data) (al_toDate data)) = None"
  shows "((applyLeave now newId data db = (db, Inl OverlappingDates))
          = (\<exists>l \<in> set (take 100 (filter (\<lambda>l. al_employeeId data = [] \<or> l_employeeId l = al_employeeId data)
                                    (rev (leaves db)))).
               l_status l \<noteq> Rejected
               \<and> ((al_fromDate data \<ge> l_fromDate l \<and> al_fromDate data \<le> l_toDate l)
                  \<or> (al_toDate data \<ge> l_fromDate l \<and> al_toDate data \<le> l_toDate l)
                  \<or> (al_fromDate data \<le> l_fromDate l \<and> al_toDate data \<ge> l_toDate l))))
       \<and> (al_employeeId data \<noteq> []
            \<and> length (filter (\<lambda>l. l_employeeId l = al_employeeId data) (leaves db)) \<le> 100
            \<and> al_fromDate data \<le> al_toDate data
            \<and> (\<forall>l \<in> set (leaves db). l_fromDate l \<le> l_toDate l)
          \<longrightarrow> (applyLeave now newId data db = (db, Inl OverlappingDates))
              = (\<exists>l \<in> set (leaves db). standardOverlap data l))"
proof (intro conjI impI)
  show "(applyLeave now newId data db = (db, Inl OverlappingDates))
          = (\<exists>l \<in> set (take 100 (filter (\<lambda>l. al_employeeId data = [] \<or> l_employeeId l = al_employeeId data)
                                    (rev (leaves db)))).
               l_status l \<noteq> Rejected
               \<and> ((al_fromDate data \<ge> l_fromDate l \<and> al_fromDate data \<le> l_toDate l)
                  \<or> (al_toDate data \<ge> l_fromDate l \<and> al_toDate data \<le> l_toDate l)
                  \<or> (al_fromDate data \<le> l_fromDate l \<and> al_toDate data \<ge> l_toDate l)))"
    unfolding applyLeave_overlap_iff [OF assms]
    by (simp add: getEmployeeLeaves_def getLeaveRequests_def overlaps_def Let_def) blast
next
  assume h: "al_employeeId data \<noteq> []
            \<and> length (filter (\<lambda>l. l_employeeId l = al_employeeId data) (leaves db)) \<le> 100
            \<and> al_fromDate data \<le> al_toDate data
            \<and> (\<forall>l \<in> set (leaves db). l_fromDate l \<le> l_toDate l)"
  then have s: "set (getEmployeeLeaves (leaves db) (al_employeeId data))
                 = {l \<in> set (leaves db). l_employeeId l = al_employeeId data}"
    using getEmployeeLeaves_all by blast
  have "(\<exists>l \<in> set (getEmployeeLeaves (leaves db) (al_employeeId data)). overlaps data l)
        = (\<exists>l \<in> set (leaves db). standardOverlap data l)"
    unfolding s using h by (auto simp: overlaps_standard standardOverlap_def)
  then show "(applyLeave now newId data db = (db, Inl OverlappingDates))
              = (\<exists>l \<in> set (leaves db). standardOverlap data l)"
    unfolding applyLeave_overlap_iff [OF assms] .
qed


theorem applyLeave_overlap_witness:
  "applyLeave 0 ''l2'' (ex_apply MaternityLeave 6 8)
       \<lparr> employees = [ex_employee None], leaves = [ex_leave ''l1'' MaternityLeave 5 6 Pending] \<rparr>
     = (\<lparr> employees = [ex_employee None], leaves = [ex_leave ''l1'' MaternityLeave 5 6 Pending] \<rparr>,
        Inl OverlappingDates)
   \<and> applyLeave 0 ''l2'' (ex_apply MaternityLeave 6 8)
       \<lparr> employees = [ex_employee None], leaves = [ex_leave ''l1'' MaternityLeave 5 6 Rejected] \<rparr>
     \<noteq> (\<lparr> employees = [ex_employee None], leaves = [ex_leave ''l1'' MaternityLeave 5 6 Rejected] \<rparr>,
        Inl OverlappingDates)"
  using applyLeave_overlap [of "\<lparr> employees = [ex_employee None],
            leaves = [ex_leave ''l1'' MaternityLeave 5 6 Pending] \<rparr>"
          "ex_apply MaternityLeave 6 8" "ex_employee None" 0 "''l2''"]
        applyLeave_overlap [of "\<lparr> employees = [ex_employee None],
            leaves = [ex_leave ''l1'' MaternityLeave 5 6 Rejected] \<rparr>"
          "ex_apply MaternityLeave 6 8" "ex_employee None" 0 "''l2''"]
  by (simp add: getEmployee_def balanceCheck_def ex_employee_def ex_apply_def ex_leave_def
        standardOverlap_def msPerDay_def)

lemma applyLeave_no_overlap:
  assumes "getEmployee (employees db) (al_employeeId data) = Some employee"
      and "balanceCheck employee (al_leaveType data)
             (calculateDays (al_fromDate data) (al_toDate data)) = None"
      and "\<forall>l \<in> set (getEmployeeLeaves (leaves db) (al_employeeId data)). \<not> overlaps data l"
  shows "\<not> isl (snd (applyLeave now newId data db))"
  using assms by (simp add: applyLeave_def Let_def list_ex_iff)

lemma ex_history_recent:
  "getEmployeeLeaves ex_history ''e1''
     = rev (map (\<lambda>i. ex_leave (toString i) MaternityLeave (10 + int i) (10 + int i) Pending) [1..<101])"
proof -
  let ?ms = "map (\<lambda>i. ex_leave (toString i) MaternityLeave (10 + int i) (10 + int i) Pending) [1..<101]"
  have all: "filter (\<lambda>l. l_employeeId l = ''e1'') (rev ?ms) = rev ?ms"
    by (rule filter_True) (auto simp: ex_leave_def)
  have len: "length (rev ?ms) = 100"
    by simp
  have "getEmployeeLeaves ex_history ''e1''
          = take 100 (filter (\<lambda>l. l_employeeId l = ''e1'') (rev ?ms)
                      @ [ex_leave ''old'' MaternityLeave 0 0 Pending])"
    by (simp add: getEmployeeLeaves_def getLeaveRequests_def ex_history_def ex_leave_def)
  also have "\<dots> = rev ?ms"
    unfolding all using len by (simp del: length_rev length_map)
  finally show ?thesis .
qed

text \<open>
  C3 as stated fails twice.  A request entered backwards (from day 5 to day 1) against a
  pending request for days 5 to 6 is rejected for overlap although the standard test
  says the ranges are disjoint.  And a pending request for day 0 that is older than a
  hundred later requests of the same employee is not among the 100 listed, so a new
  request for day 0 is accepted.
\<close>

theorem applyLeave_overlap_counterexample:
  "applyLeave 0 ''l2'' (ex_apply MaternityLeave 5 1)
       \<lparr> employees = [ex_employee None], leaves = [ex_leave ''l1'' MaternityLeave 5 6 Pending] \<rparr>
     = (\<lparr> employees = [ex_employee None], leaves = [ex_leave ''l1'' MaternityLeave 5 6 Pending] \<rparr>,
        Inl OverlappingDates)
   \<and> \<not> list_ex (standardOverlap (ex_apply MaternityLeave 5 1)) [ex_leave ''l1'' MaternityLeave 5 6 Pending]
   \<and> list_ex (standardOverlap (ex_apply MaternityLeave 0 0)) ex_history
   \<and> \<not> isl (snd (applyLeave 0 ''l2'' (ex_apply MaternityLeave 0 0)
                    \<lparr> employees = [ex_employee None], leaves = ex_history \<rparr>))"
proof (intro conjI)
  show "applyLeave 0 ''l2'' (ex_apply MaternityLeave 5 1)
       \<lparr> employees = [ex_employee None], leaves = [ex_leave ''l1'' MaternityLeave 5 6 Pending] \<rparr>
     = (\<lparr> employees = [ex_employee None], leaves = [ex_leave ''l1'' MaternityLeave 5 6 Pending] \<rparr>,
        Inl OverlappingDates)"
    by (simp add: applyLeave_def Let_def getEmployee_def balanceCheck_def getEmployeeLeaves_def
          getLeaveRequests_def overlaps_def ex_employee_def ex_apply_def ex_leave_def msPerDay_def)
  show "\<not> list_ex (standardOverlap (ex_apply MaternityLeave 5 1)) [ex_leave ''l1'' MaternityLeave 5 6 Pending]"
    by (simp add: standardOverlap_def ex_apply_def ex_leave_def msPerDay_def)
  show "list_ex (standardOverlap (ex_apply MaternityLeave 0 0)) ex_history"
    by (simp add: ex_history_def standardOverlap_def ex_apply_def ex_leave_def)
  show "\<not> isl (snd (applyLeave 0 ''l2'' (ex_apply MaternityLeave 0 0)
                    \<lparr> employees = [ex_employee None], leaves = ex_history \<rparr>))"
  proof (rule applyLeave_no_overlap [where employee = "ex_employee None"])
    show "getEmployee (employees \<lparr> employees = [ex_employee None], leaves = ex_history \<rparr>)
            (al_employeeId (ex_apply MaternityLeave 0 0)) = Some (ex_employee None)"
      by (simp add: getEmployee_def ex_employee_def ex_apply_def)
    show "balanceCheck (ex_employee None) (al_leaveType (ex_apply MaternityLeave 0 0))
            (calculateDays (al_fromDate (ex_apply MaternityLeave 0 0))
               (al_toDate (ex_apply MaternityLeave 0 0))) = None"
      by (simp add: balanceCheck_def ex_apply_def)
    show "\<forall>l \<in> set (getEmployeeLeaves (leaves \<lparr> employees = [ex_employee None], leaves = ex_history \<rparr>)
                     (al_employeeId (ex_apply MaternityLeave 0 0))).
            \<not> overlaps (ex_apply MaternityLeave 0 0) l"
      using ex_history_recent
      by (auto simp: ex_apply_def overlaps_def Let_def ex_leave_def msPerDay_def)
  qed
qed

lemma find_map_update:
  assumes "find (\<lambda>x. key x = k) xs = Some a" and "\<And>x. key (f x) = key x"
  shows "find (\<lambda>x. key x = k) (map (\<lambda>x. if key x = k then f x else x) xs) = Some (f a)"
  using assms by (induction xs) (auto split: if_splits)

lemma find_key: "find (\<lambda>x. key x = k) xs = Some a \<Longrightarrow> key a = k"
  by (auto simp: find_Some_iff)

lemma getLeaveById_updated:
  assumes "getLeaveById coll leaveId = Some leave" and "l_id u = leaveId"
  shows "getLeaveById (updateLeaveDocument leaveId (\<lambda>_. u) coll) leaveId = Some u"
proof -
  have "find (\<lambda>x. l_id x = leaveId) (map (\<lambda>x. if l_id x = leaveId then (\<lambda>_. u) x else x) coll)
          = Some ((\<lambda>_. u) leave)"
    using assms find_key [of l_id leaveId coll leave]
    by (induction coll) (auto simp: getLeaveById_def split: if_splits)
  then show ?thesis
    by (simp add: getLeaveById_def updateLeaveDocument_def)
qed

lemma updateLeaveBalance_result:
  assumes "getEmployee coll employeeId = Some emp"
  shows "\<exists>coll'. updateLeaveBalance coll employeeId key amount = Inr coll'
           \<and> getLeaveBalance coll' employeeId
               = balanceSet (getLeaveBalance coll employeeId) key
                   (max 0 (balanceGet (getLeaveBalance coll employeeId) key + amount))"
proof -
  let ?b = "balanceSet (getLeaveBalance coll employeeId) key
                   (max 0 (balanceGet (getLeaveBalance coll employeeId) key + amount))"
  let ?f = "\<lambda>e. e\<lparr> e_leaveBalance := Some (BalanceJson ?b) \<rparr>"
  from assms have ex: "list_ex (\<lambda>e. e_id e = employeeId) coll"
    by (auto simp: getEmployee_def find_Some_iff list_ex_iff)
  have "find (\<lambda>x. e_id x = employeeId) (map (\<lambda>x. if e_id x = employeeId then ?f x else x) coll)
          = Some (?f emp)"
    by (rule find_map_update) (use assms in \<open>simp_all add: getEmployee_def\<close>)
  then have "getLeaveBalance (map (\<lambda>x. if e_id x = employeeId then ?f x else x) coll) employeeId = ?b"
    by (simp add: getLeaveBalance_def getEmployee_def)
  with ex show ?thesis
    by (simp add: updateLeaveBalance_def updateEmployee_def Let_def)
qed

lemma balanceGet_balanceSet: "balanceGet (balanceSet b key v) key' = (if key' = key then v else balanceGet b key')"
  by (cases key; cases key') simp_all

section \<open>Properties of the task service\<close>

lemma skipWeekend_friday_ist:
  "skipWeekend 19800000 (addLocalDay 1704400200000) = 1704659400000"
proof -
  have sat: "getDay 19800000 1704486600000 = 6"
    by (simp add: getDay_def msPerDay_def)
  have sun: "getDay 19800000 1704573000000 = 0"
    by (simp add: getDay_def msPerDay_def)
  have mon: "getDay 19800000 1704659400000 = 1"
    by (simp add: getDay_def msPerDay_def)
  have "skipWeekend 19800000 1704659400000 = 1704659400000"
    by (subst skipWeekend.simps) (simp add: mon)
  then have "skipWeekend 19800000 1704573000000 = 1704659400000"
    by (subst skipWeekend.simps) (simp add: sun addLocalDay_def msPerDay_def)
  then have "skipWeekend 19800000 1704486600000 = 1704659400000"
    by (subst skipWeekend.simps) (simp add: sat addLocalDay_def msPerDay_def)
  then show ?thesis
    by (simp add: addLocalDay_def msPerDay_def)
qed

lemma local_day_next: "(t + msPerDay + tz) div msPerDay = (t + tz) div msPerDay + 1"
  by (simp add: msPerDay_def)

lemma getDay_weekday: "getDay tz t = weekdayOfDate ((t + tz) div msPerDay)"
  by (simp add: getDay_def weekdayOfDate_def)

lemma skipWeekend_step:
  "getDay tz t = 0 \<or> getDay tz t = 6 \<Longrightarrow> skipWeekend tz t = skipWeekend tz (t + msPerDay)"
  by (subst skipWeekend.simps) (simp add: addLocalDay_def)

lemma skipWeekend_stop:
  "getDay tz t \<noteq> 0 \<Longrightarrow> getDay tz t \<noteq> 6 \<Longrightarrow> skipWeekend tz t = t"
  by (subst skipWeekend.simps) simp

lemma skipWeekend_local_date:
  "(skipWeekend tz (addLocalDay now) + tz) div msPerDay = nextWorkingDay ((now + tz) div msPerDay)"
proof -
  define d where "d = (now + tz) div msPerDay"
  define t1 where "t1 = now + msPerDay"
  define t2 where "t2 = t1 + msPerDay"
  define t3 where "t3 = t2 + msPerDay"
  have l1: "(t1 + tz) div msPerDay = d + 1"
    unfolding t1_def d_def by (rule local_day_next)
  have l2: "(t2 + tz) div msPerDay = d + 2"
    unfolding t2_def using local_day_next [of t1 tz] l1 by simp
  have l3: "(t3 + tz) div msPerDay = d + 3"
    unfolding t3_def using local_day_next [of t2 tz] l2 by simp
  have g1: "getDay tz t1 = weekdayOfDate (d + 1)"
    by (simp only: getDay_weekday l1)
  have g2: "getDay tz t2 = weekdayOfDate (d + 2)"
    by (simp only: getDay_weekday l2)
  have g3: "getDay tz t3 = weekdayOfDate (d + 3)"
    by (simp only: getDay_weekday l3)
  consider (sat) "weekdayOfDate (d + 1) = 6" | (sun) "weekdayOfDate (d + 1) = 0"
    | (work) "weekdayOfDate (d + 1) \<noteq> 6" "weekdayOfDate (d + 1) \<noteq> 0"
    by blast
  then have "(skipWeekend tz t1 + tz) div msPerDay = nextWorkingDay d"
  proof cases
    case sat
    then have w2: "weekdayOfDate (d + 2) = 0" and w3: "weekdayOfDate (d + 3) = 1"
      unfolding weekdayOfDate_def by presburger+
    have "skipWeekend tz t1 = skipWeekend tz t2"
      unfolding t2_def by (rule skipWeekend_step) (simp add: g1 sat)
    also have "\<dots> = skipWeekend tz t3"
      unfolding t3_def by (rule skipWeekend_step) (simp add: g2 w2)
    also have "\<dots> = t3"
      by (rule skipWeekend_stop) (simp_all add: g3 w3)
    finally show ?thesis
      using sat l3 by (simp add: nextWorkingDay_def)
  next
    case sun
    then have w2: "weekdayOfDate (d + 2) = 1"
      unfolding weekdayOfDate_def by presburger
    have "skipWeekend tz t1 = skipWeekend tz t2"
      unfolding t2_def by (rule skipWeekend_step) (simp add: g1 sun)
    also have "\<dots> = t2"
      by (rule skipWeekend_stop) (simp_all add: g2 w2)
    finally show ?thesis
      using sun l2 by (simp add: nextWorkingDay_def)
  next
    case work
    have "skipWeekend tz t1 = t1"
      by (rule skipWeekend_stop) (simp_all add: g1 work)
    with work l1 show ?thesis
      by (simp add: nextWorkingDay_def)
  qed
  then show ?thesis
    by (simp add: addLocalDay_def d_def t1_def)
qed

lemma rejectTask_utc:
  assumes "find (\<lambda>t. t_id t = taskId) coll = Some task"
  shows "\<exists>u. snd (rejectTask 0 now taskId rejectionNote coll) = Inr u
           \<and> t_status u = TaskRejected \<and> t_rejectionNote u = Some rejectionNote
           \<and> t_dueDate u = nextWorkingDay (isoDate now)"
  using assms skipWeekend_local_date [of 0 now]
  by (simp add: rejectTask_def Let_def isoDate_def)

lemma nextWorkingDay_earliest:
  "d < nextWorkingDay d
   \<and> weekdayOfDate (nextWorkingDay d) \<noteq> 0 \<and> weekdayOfDate (nextWorkingDay d) \<noteq> 6
   \<and> (\<forall>x. d < x \<and> x < nextWorkingDay d \<longrightarrow> weekdayOfDate x = 0 \<or> weekdayOfDate x = 6)"
proof -
  have "\<And>x. d < x \<Longrightarrow> x < d + 3 \<Longrightarrow> x = d + 1 \<or> x = d + 2"
    by presburger
  then show ?thesis
    unfolding nextWorkingDay_def weekdayOfDate_def
    by (auto; presburger)
qed

text \<open>
  C6 at a failing input. In a browser five and a half hours ahead of UTC a task is
  rejected on Friday 2024-01-05 at 02:00 local time (2024-01-04T20:30Z).  The status
  becomes rejected and the note is stored, but the due date written is day 19729,
  2024-01-07, a Sunday: the loop steps over the weekend in local time and lands on Monday
  02:00, which \<open>toISOString\<close> prints as the UTC date of the evening before.  The next
  working day is 2024-01-05 counting from the UTC date and 2024-01-08 counting from the
  local one.  In local dates the loop is right (\<open>skipWeekend_local_date\<close>), and so is
  the result when the browser runs on UTC (\<open>rejectTask_utc\<close>).
\<close>

theorem rejectTask_due_on_sunday:
  "map_sum id (\<lambda>t. (t_status t, t_rejectionNote t, t_dueDate t))
      (snd (rejectTask 19800000 1704400200000 ''t1'' ''redo'' [ex_task]))
     = Inr (TaskRejected, Some ''redo'', 19729)
   \<and> weekdayOfDate 19729 = 0
   \<and> nextWorkingDay (isoDate 1704400200000) = 19727
   \<and> nextWorkingDay (isoDate (1704400200000 + 19800000)) = 19730"
  by (simp add: rejectTask_def Let_def skipWeekend_friday_ist ex_task_def isoDate_def msPerDay_def
        weekdayOfDate_def nextWorkingDay_def)

section \<open>Properties of the double rounding\<close>

lemma roundHalfEven_close: "\<bar>real_of_int (roundHalfEven m) - m\<bar> \<le> 1 / 2"
proof -
  have "real_of_int \<lfloor>m\<rfloor> \<le> m" "m < real_of_int \<lfloor>m\<rfloor> + 1"
    by linarith+
  then show ?thesis
    by (auto simp: roundHalfEven_def Let_def)
qed

lemma roundHalfEven_of_int: "roundHalfEven (real_of_int n) = n"
  by (simp add: roundHalfEven_def)

lemma roundHalfEven_ge: "real_of_int n \<le> m \<Longrightarrow> n \<le> roundHalfEven m"
proof -
  assume "real_of_int n \<le> m"
  then have "n \<le> \<lfloor>m\<rfloor>" by (simp add: le_floor_iff)
  then show ?thesis by (auto simp: roundHalfEven_def Let_def)
qed

lemma roundHalfEven_le: "m \<le> real_of_int n \<Longrightarrow> roundHalfEven m \<le> n"
proof -
  assume a: "m \<le> real_of_int n"
  have "real_of_int (roundHalfEven m) \<le> m + 1 / 2"
    using roundHalfEven_close [of m] by linarith
  with a have "real_of_int (roundHalfEven m) < real_of_int (n + 1)" by simp
  then have "roundHalfEven m < n + 1" by (simp only: of_int_less_iff)
  then show ?thesis by simp
qed

lemma binade_bounds:
  assumes "x \<noteq> 0"
  shows "2 powr real_of_int \<lfloor>log 2 \<bar>x\<bar>\<rfloor> \<le> \<bar>x\<bar>"
    and "\<bar>x\<bar> < 2 powr (real_of_int \<lfloor>log 2 \<bar>x\<bar>\<rfloor> + 1)"
  using assms floor_log_eq_powr_iff [of "\<bar>x\<bar>" 2 "\<lfloor>log 2 \<bar>x\<bar>\<rfloor>"] by simp_all

lemma fl_error: "\<bar>fl x - x\<bar> \<le> \<bar>x\<bar> / 2 ^ 53"
proof (cases "x = 0")
  case True
  then show ?thesis by (simp add: fl_def)
next
  case False
  define n where "n = \<lfloor>log 2 \<bar>x\<bar>\<rfloor>"
  define u where "u = 2 powr real_of_int (n - 52)"
  have upos: "0 < u" by (simp add: u_def)
  have lo: "2 powr real_of_int n \<le> \<bar>x\<bar>"
    unfolding n_def using binade_bounds(1) [OF False] .
  have u2: "u = 2 powr real_of_int n / 2 ^ 52"
    by (simp add: u_def powr_diff)
  have flx: "fl x = real_of_int (roundHalfEven (x / u)) * u"
    using False by (simp add: fl_def Let_def n_def u_def)
  have "\<bar>fl x - x\<bar> = \<bar>real_of_int (roundHalfEven (x / u)) - x / u\<bar> * u"
  proof -
    have "fl x - x = (real_of_int (roundHalfEven (x / u)) - x / u) * u"
      using upos by (simp add: flx field_simps)
    then show ?thesis using upos by (simp add: abs_mult)
  qed
  also have "\<dots> \<le> (1 / 2) * u"
    using roundHalfEven_close [of "x / u"] upos by (intro mult_right_mono) simp_all
  also have "\<dots> = 2 powr real_of_int n / 2 ^ 53"
    by (simp add: u2)
  also have "\<dots> \<le> \<bar>x\<bar> / 2 ^ 53"
    using lo by (simp add: divide_right_mono)
  finally show ?thesis .
qed

lemma fl_ge_pow2:
  assumes "2 ^ k \<le> x"
  shows "2 ^ k \<le> fl x"
proof -
  have "(0::real) < 2 ^ k" by simp
  with assms have xpos: "0 < x" by linarith
  then have x0: "x \<noteq> 0" by simp
  define n where "n = \<lfloor>log 2 \<bar>x\<bar>\<rfloor>"
  define u where "u = 2 powr real_of_int (n - 52)"
  have upos: "0 < u" by (simp add: u_def)
  have lo: "2 powr real_of_int n \<le> x"
    unfolding n_def using binade_bounds(1) [OF x0] xpos by simp
  have "real k \<le> log 2 x"
    using assms xpos by (simp add: le_log_iff powr_realpow)
  then have kn: "int k \<le> n"
    using xpos by (simp add: n_def le_floor_iff)
  have u2: "u = 2 powr real_of_int n / 2 ^ 52"
    by (simp add: u_def powr_diff)
  have flx: "fl x = real_of_int (roundHalfEven (x / u)) * u"
    using x0 by (simp add: fl_def Let_def n_def u_def)
  have "real_of_int (2 ^ 52) \<le> x / u"
    using lo upos by (simp add: u2 field_simps)
  then have "2 ^ 52 \<le> roundHalfEven (x / u)"
    by (rule roundHalfEven_ge)
  then have "real_of_int (2 ^ 52) \<le> real_of_int (roundHalfEven (x / u))"
    by (simp only: of_int_le_iff)
  then have "2 ^ 52 * u \<le> fl x"
    using upos by (simp add: flx)
  then have "2 powr real_of_int n \<le> fl x"
    by (simp add: u2)
  moreover have "(2::real) ^ k \<le> 2 powr real_of_int n"
  proof -
    have "(2::real) ^ k = 2 powr real k" by (simp add: powr_realpow)
    also have "\<dots> \<le> 2 powr real_of_int n"
      using kn by (intro powr_mono) simp_all
    finally show ?thesis .
  qed
  ultimately show ?thesis by linarith
qed

lemma fl_nonpos: "x \<le> 0 \<Longrightarrow> fl x \<le> 0"
proof (cases "x = 0")
  case True
  then show ?thesis by (simp add: fl_def)
next
  case False
  assume "x \<le> 0"
  define u where "u = 2 powr real_of_int (\<lfloor>log 2 \<bar>x\<bar>\<rfloor> - 52)"
  have upos: "0 < u" by (simp add: u_def)
  have flx: "fl x = real_of_int (roundHalfEven (x / u)) * u"
    using False by (simp add: fl_def Let_def u_def)
  have "x / u \<le> real_of_int 0"
    using \<open>x \<le> 0\<close> upos by (simp add: divide_le_0_iff)
  then have "roundHalfEven (x / u) \<le> 0" by (rule roundHalfEven_le)
  then show ?thesis
    using upos by (simp add: flx mult_le_0_iff)
qed

lemma fl_of_int:
  assumes "\<bar>n\<bar> < 2 ^ 53"
  shows "fl (real_of_int n) = real_of_int n"
proof (cases "n = 0")
  case True
  then show ?thesis by (simp add: fl_def)
next
  case False
  define x where "x = real_of_int n"
  have x0: "x \<noteq> 0" using False by (simp add: x_def)
  define b where "b = \<lfloor>log 2 \<bar>x\<bar>\<rfloor>"
  have lo: "2 powr real_of_int b \<le> \<bar>x\<bar>" and hi: "\<bar>x\<bar> < 2 powr (real_of_int b + 1)"
    unfolding b_def using binade_bounds [OF x0] by simp_all
  have "\<bar>x\<bar> < 2 ^ 53"
    using assms unfolding x_def by (metis of_int_abs of_int_less_iff of_int_numeral of_int_power)
  then have small: "2 powr real_of_int b < 2 ^ 53"
    using lo by linarith
  have "\<not> 53 \<le> b"
  proof
    assume "53 \<le> b"
    then have "2 powr real (53::nat) \<le> 2 powr real_of_int b"
      by (intro powr_mono) simp_all
    then have "(2::real) ^ 53 \<le> 2 powr real_of_int b"
      by (simp only: powr_realpow [of 2 53, OF zero_less_numeral])
    with small show False by linarith
  qed
  then have b52: "b \<le> 52" by linarith
  define j where "j = nat (52 - b)"
  have j: "real_of_int (b - 52) = - real j"
    using b52 by (simp add: j_def)
  have u: "2 powr real_of_int (b - 52) = 1 / 2 ^ j"
    unfolding j by (simp add: powr_minus powr_realpow inverse_eq_divide)
  have "x / 2 powr real_of_int (b - 52) = real_of_int (n * 2 ^ j)"
    unfolding u x_def by simp
  then have "roundHalfEven (x / 2 powr real_of_int (b - 52)) = n * 2 ^ j"
    by (simp only: roundHalfEven_of_int)
  moreover have "fl x = real_of_int (roundHalfEven (x / 2 powr real_of_int (b - 52)))
                          * 2 powr real_of_int (b - 52)"
    using x0 unfolding fl_def Let_def b_def by (simp only: if_False)
  ultimately have "fl x = real_of_int (n * 2 ^ j) * (1 / 2 ^ j)"
    unfolding u by (simp only:)
  then show ?thesis
    by (simp add: x_def)
qed

lemma fl_eval:
  assumes "2 powr real_of_int n \<le> \<bar>x\<bar>" and "\<bar>x\<bar> < 2 powr (real_of_int n + 1)"
  shows "fl x = real_of_int (roundHalfEven (x / 2 powr real_of_int (n - 52))) * 2 powr real_of_int (n - 52)"
proof -
  have "(0::real) < 2 powr real_of_int n" by simp
  with assms(1) have "0 < \<bar>x\<bar>" by linarith
  then have x0: "x \<noteq> 0" by simp
  have "\<lfloor>log 2 \<bar>x\<bar>\<rfloor> = n"
    using floor_log_eq_powr_iff [of "\<bar>x\<bar>" 2 n] assms \<open>0 < \<bar>x\<bar>\<close> by simp
  then show ?thesis
    using x0 by (simp add: fl_def Let_def)
qed

section \<open>Properties of check-out\<close>

lemma hours_exact_difference:
  assumes "\<bar>checkOutTime - checkInTime\<bar> \<le> 10 ^ 15"
  shows "fl (real_of_int checkOutTime - real_of_int checkInTime) = real_of_int (checkOutTime - checkInTime)"
proof -
  have "\<bar>checkOutTime - checkInTime\<bar> < 2 ^ 53"
    using assms by simp
  from fl_of_int [OF this] show ?thesis by simp
qed

lemma hours_under_four:
  "(fl (real_of_int e / real_of_int msPerHour) < 4) = (e < 4 * msPerHour)"
proof
  assume lt: "fl (real_of_int e / real_of_int msPerHour) < 4"
  show "e < 4 * msPerHour"
  proof (rule ccontr)
    assume "\<not> e < 4 * msPerHour"
    then have "(2::real) ^ 2 \<le> real_of_int e / real_of_int msPerHour"
      by (simp add: msPerHour_def le_divide_eq)
    from fl_ge_pow2 [OF this] lt show False by simp
  qed
next
  assume "e < 4 * msPerHour"
  then have "e \<le> 14399999" by (simp add: msPerHour_def)
  then have "real_of_int e \<le> 14399999" by linarith
  then have h: "real_of_int e / real_of_int msPerHour \<le> 14399999 / 3600000"
    by (simp add: msPerHour_def divide_right_mono)
  define x where "x = real_of_int e / real_of_int msPerHour"
  show "fl (real_of_int e / real_of_int msPerHour) < 4"
  proof (cases "x \<le> 0")
    case True
    then have "fl x \<le> 0" by (rule fl_nonpos)
    then show ?thesis by (simp add: x_def)
  next
    case False
    have err: "\<bar>fl x - x\<bar> \<le> \<bar>x\<bar> / 2 ^ 53" by (rule fl_error)
    have xb: "x \<le> 14399999 / 3600000"
      using h by (simp only: x_def)
    from False have ax: "\<bar>x\<bar> = x" by simp
    have "x / 2 ^ 53 \<le> (14399999 / 3600000) / 2 ^ 53"
      using xb by (rule divide_right_mono) simp
    also have "\<dots> < 1 / 3600000" by simp
    finally have small: "x / 2 ^ 53 < 1 / 3600000" .
    have "fl x - x \<le> \<bar>fl x - x\<bar>" by simp
    with err ax have "fl x \<le> x + x / 2 ^ 53" by linarith
    with small xb have "fl x < 4" by linarith
    then show ?thesis by (simp add: x_def)
  qed
qed

lemma hours_rounded:
  assumes "\<bar>e\<bar> \<le> 10 ^ 15"
  shows "\<bar>real_of_int (Math_round (fl (fl (real_of_int e / real_of_int msPerHour) * 100))) / 100
          - real_of_int e / 3600000\<bar> \<le> 1 / 200"
proof -
  define h where "h = real_of_int e / real_of_int msPerHour"
  define h1 where "h1 = fl h"
  define y1 where "y1 = fl (h1 * 100)"
  define k where "k = Math_round y1"
  have hval: "h = real_of_int e / 3600000"
    by (simp add: h_def msPerHour_def)
  have "\<bar>e\<bar> \<le> 1000000000000000"
    using assms by simp
  then have "\<bar>real_of_int e\<bar> \<le> 1000000000000000"
    by linarith
  then have hb: "\<bar>h\<bar> \<le> 1000000000000000 / 3600000"
    unfolding hval by (simp add: divide_right_mono)
  have e1: "\<bar>h1 - h\<bar> \<le> \<bar>h\<bar> / 2 ^ 53"
    unfolding h1_def by (rule fl_error)
  have e2: "\<bar>y1 - h1 * 100\<bar> \<le> \<bar>h1 * 100\<bar> / 2 ^ 53"
    unfolding y1_def by (rule fl_error)
  have c1: "\<bar>h\<bar> / 2 ^ 53 \<le> (1000000000000000 / 3600000) / 2 ^ 53"
    using hb by (rule divide_right_mono) simp
  have "(1000000000000000 / 3600000) / 2 ^ 53 \<le> (1::real) / 10000000" by simp
  with c1 e1 have d1: "\<bar>h1 - h\<bar> \<le> 1 / 10000000" by linarith
  have "\<bar>h1\<bar> \<le> \<bar>h\<bar> + \<bar>h1 - h\<bar>" by linarith
  with d1 hb have h1b: "\<bar>h1\<bar> \<le> 1000000000000000 / 3600000 + 1" by linarith
  have "\<bar>h1 * 100\<bar> \<le> (1000000000000000 / 3600000 + 1) * 100"
    using h1b by (simp add: abs_mult)
  then have "\<bar>h1 * 100\<bar> / 2 ^ 53 \<le> ((1000000000000000 / 3600000 + 1) * 100) / 2 ^ 53"
    by (rule divide_right_mono) simp
  also have "\<dots> \<le> 1 / 100000" by simp
  finally have "\<bar>h1 * 100\<bar> / 2 ^ 53 \<le> 1 / 100000" .
  with e2 have d2: "\<bar>y1 - h1 * 100\<bar> \<le> 1 / 100000" by linarith
  define p where "p = h1 * 100"
  define q where "q = h * 100"
  have pq: "p - q = (h1 - h) * 100"
    by (simp add: p_def q_def left_diff_distrib)
  have "\<bar>p - q\<bar> = \<bar>h1 - h\<bar> * \<bar>100\<bar>"
    unfolding pq by (rule abs_mult)
  then have "\<bar>p - q\<bar> = \<bar>h1 - h\<bar> * 100"
    by simp
  moreover have "\<bar>y1 - q\<bar> \<le> \<bar>y1 - p\<bar> + \<bar>p - q\<bar>" by linarith
  ultimately have "\<bar>y1 - h * 100\<bar> \<le> \<bar>y1 - h1 * 100\<bar> + \<bar>h1 - h\<bar> * 100"
    by (simp add: p_def q_def)
  with d1 d2 have "\<bar>y1 - h * 100\<bar> \<le> 1 / 100000 + (1 / 10000000) * 100" by linarith
  also have "\<dots> < (1::real) / 36000" by simp
  finally have near: "\<bar>y1 - h * 100\<bar> < 1 / 36000" .
  have k1: "real_of_int k \<le> y1 + 1 / 2" and k2: "y1 + 1 / 2 < real_of_int k + 1"
    unfolding k_def Math_round_def by linarith+
  have y: "h * 100 = real_of_int e / 36000"
    by (simp add: hval)
  have n1: "y1 < real_of_int e / 36000 + 1 / 36000" and n2: "real_of_int e / 36000 - 1 / 36000 < y1"
    using near unfolding y by linarith+
  have "36000 * real_of_int k < real_of_int e + 18001"
    using n1 k1 by linarith
  then have "real_of_int (36000 * k) < real_of_int (e + 18001)" by simp
  then have "36000 * k < e + 18001" by (simp only: of_int_less_iff)
  then have up: "36000 * k \<le> e + 18000" by linarith
  have "real_of_int e - 18001 < 36000 * real_of_int k"
    using n2 k2 by linarith
  then have "real_of_int (e - 18001) < real_of_int (36000 * k)" by simp
  then have "e - 18001 < 36000 * k" by (simp only: of_int_less_iff)
  then have dn: "e - 18000 \<le> 36000 * k" by linarith
  have "real_of_int (36000 * k) \<le> real_of_int (e + 18000)"
    using up by (simp only: of_int_le_iff)
  then have u1: "36000 * real_of_int k \<le> real_of_int e + 18000" by simp
  have "real_of_int (e - 18000) \<le> real_of_int (36000 * k)"
    using dn by (simp only: of_int_le_iff)
  then have u2: "real_of_int e - 18000 \<le> 36000 * real_of_int k" by simp
  have "\<bar>real_of_int k / 100 - real_of_int e / 3600000\<bar> \<le> 1 / 200"
    using u1 u2 by linarith
  then show ?thesis
    by (simp add: k_def y1_def h1_def h_def)
qed


lemma fl_four: "fl 4 = 4"
  using fl_of_int [of 4] by simp

lemma fl_five: "fl 5 = 5"
  using fl_of_int [of 5] by simp

lemma fl_tie_hours: "fl (29 / 200) = 5224175567749775 / 36028797018963968"
proof -
  have "fl (29 / 200) = real_of_int (roundHalfEven ((29 / 200) / 2 powr real_of_int (- 3 - 52)))
                          * 2 powr real_of_int (- 3 - 52)"
    by (rule fl_eval) (simp_all add: powr_minus)
  also have "\<dots> = 5224175567749775 / 36028797018963968"
    by (simp add: powr_minus roundHalfEven_def Let_def)
  finally show ?thesis .
qed

lemma fl_tie_product:
  "fl (130604389193744375 / 9007199254740992) = 8162774324609023 / 562949953421312"
proof -
  have "fl (130604389193744375 / 9007199254740992)
          = real_of_int (roundHalfEven ((130604389193744375 / 9007199254740992)
                                          / 2 powr real_of_int (3 - 52)))
              * 2 powr real_of_int (3 - 52)"
    by (rule fl_eval) (simp_all add: powr_minus)
  also have "\<dots> = 8162774324609023 / 562949953421312"
    by (simp add: powr_minus roundHalfEven_def Let_def)
  finally show ?thesis .
qed

lemma checkOut_result:
  assumes "getAttendanceById coll attendanceId = Some att"
      and "a_checkOut att = None"
      and "a_checkIn att = Some checkInTime"
      and "\<bar>checkOutTime - checkInTime\<bar> \<le> 10 ^ 15"
  shows "\<exists>k. checkOut checkOutTime attendanceId location coll
               = (updateAttendanceDocument attendanceId
                    (\<lambda>_. att\<lparr> a_checkOut := Some checkOutTime,
                               a_checkOutLocation := Some location,
                               a_workingHours := Some (Some (fl (real_of_int k / 100))),
                               a_status := (if checkOutTime - checkInTime < 4 * msPerHour
                                               \<and> a_status att \<noteq> WfhStatus
                                            then HalfDay else a_status att) \<rparr>) coll,
                  Inr (att\<lparr> a_checkOut := Some checkOutTime,
                            a_checkOutLocation := Some location,
                            a_workingHours := Some (Some (fl (real_of_int k / 100))),
                            a_status := (if checkOutTime - checkInTime < 4 * msPerHour
                                            \<and> a_status att \<noteq> WfhStatus
                                         then HalfDay else a_status att) \<rparr>))
           \<and> \<bar>real_of_int k / 100 - real_of_int (checkOutTime - checkInTime) / 3600000\<bar> \<le> 1 / 200"
proof -
  define e where "e = checkOutTime - checkInTime"
  define h1 where "h1 = fl (real_of_int e / real_of_int msPerHour)"
  define k where "k = Math_round (fl (h1 * 100))"
  have d: "fl (real_of_int checkOutTime - real_of_int checkInTime) = real_of_int e"
    unfolding e_def using assms(4) by (rule hours_exact_difference)
  have st: "(h1 < 4) = (e < 4 * msPerHour)"
    unfolding h1_def by (rule hours_under_four)
  have r: "\<bar>real_of_int k / 100 - real_of_int e / 3600000\<bar> \<le> 1 / 200"
    unfolding k_def h1_def using assms(4) unfolding e_def [symmetric] by (rule hours_rounded)
  have "checkOut checkOutTime attendanceId location coll
               = (updateAttendanceDocument attendanceId
                    (\<lambda>_. att\<lparr> a_checkOut := Some checkOutTime,
                               a_checkOutLocation := Some location,
                               a_workingHours := Some (Some (fl (real_of_int k / 100))),
                               a_status := (if e < 4 * msPerHour \<and> a_status att \<noteq> WfhStatus
                                            then HalfDay else a_status att) \<rparr>) coll,
                  Inr (att\<lparr> a_checkOut := Some checkOutTime,
                            a_checkOutLocation := Some location,
                            a_workingHours := Some (Some (fl (real_of_int k / 100))),
                            a_status := (if e < 4 * msPerHour \<and> a_status att \<noteq> WfhStatus
                                         then HalfDay else a_status att) \<rparr>))"
    using assms(1,2,3) st unfolding checkOut_def Let_def k_def h1_def by (simp add: d)
  with r show ?thesis
    unfolding e_def by blast
qed

text \<open>
  C2, as amended. Checking out an existing record that has a check-in time and no
  check-out (the two less than \<open>10^15\<close> ms apart) stores as workingHours the double
  nearest to a multiple of 0.01 that is at most 0.005 from the elapsed hours, and sets
  the status to half-day exactly when the elapsed time is under 4 hours and the record's
  status is not wfh; otherwise the status is kept.  For a record whose status is wfh
  exactly when its type is wfh, as \<open>checkIn\<close> creates it, the test on the status is the
  test on the type.
\<close>

theorem checkOut_hours_and_status:
  assumes "getAttendanceById coll attendanceId = Some att"
      and "a_checkOut att = None"
      and "a_checkIn att = Some checkInTime"
      and "\<bar>checkOutTime - checkInTime\<bar> \<le> 10 ^ 15"
  shows "\<exists>u k. checkOut checkOutTime attendanceId location coll
                 = (updateAttendanceDocument attendanceId (\<lambda>_. u) coll, Inr u)
           \<and> a_workingHours u = Some (Some (fl (real_of_int k / 100)))
           \<and> \<bar>real_of_int k / 100 - real_of_int (checkOutTime - checkInTime) / 3600000\<bar> \<le> 1 / 200
           \<and> a_status u = (if checkOutTime - checkInTime < 4 * msPerHour
                                \<and> a_status att \<noteq> WfhStatus
                             then HalfDay else a_status att)
           \<and> ((a_status att = WfhStatus) = (a_attendanceType att = Wfh)
                \<longrightarrow> a_status u = (if checkOutTime - checkInTime < 4 * msPerHour
                                        \<and> a_attendanceType att \<noteq> Wfh
                                     then HalfDay else a_status att))"
proof -
  from checkOut_result [OF assms, of location] obtain k where
    c: "checkOut checkOutTime attendanceId location coll
               = (updateAttendanceDocument attendanceId
                    (\<lambda>_. att\<lparr> a_checkOut := Some checkOutTime,
                               a_checkOutLocation := Some location,
                               a_workingHours := Some (Some (fl (real_of_int k / 100))),
                               a_status := (if checkOutTime - checkInTime < 4 * msPerHour
                                               \<and> a_status att \<noteq> WfhStatus
                                            then HalfDay else a_status att) \<rparr>) coll,
                  Inr (att\<lparr> a_checkOut := Some checkOutTime,
                            a_checkOutLocation := Some location,
                            a_workingHours := Some (Some (fl (real_of_int k / 100))),
                            a_status := (if checkOutTime - checkInTime < 4 * msPerHour
                                            \<and> a_status att \<noteq> WfhStatus
                                         then HalfDay else a_status att) \<rparr>))"
    and r: "\<bar>real_of_int k / 100 - real_of_int (checkOutTime - checkInTime) / 3600000\<bar> \<le> 1 / 200"
    by blast
  show ?thesis
    apply (rule exI [where x = "att\<lparr> a_checkOut := Some checkOutTime,
                            a_checkOutLocation := Some location,
                            a_workingHours := Some (Some (fl (real_of_int k / 100))),
                            a_status := (if checkOutTime - checkInTime < 4 * msPerHour
                                            \<and> a_status att \<noteq> WfhStatus
                                         then HalfDay else a_status att) \<rparr>"])
    apply (rule exI [where x = k])
    using c r by simp
qed

lemma hundredths_unique:
  assumes "\<bar>real_of_int k / 100 - x\<bar> \<le> 1 / 200"
      and "real_of_int m - 1 / 2 < x * 100" and "x * 100 < real_of_int m + 1 / 2"
  shows "k = m"
proof -
  have "real_of_int k < real_of_int m + 1" "real_of_int m - 1 < real_of_int k"
    using assms by linarith+
  then have "real_of_int k < real_of_int (m + 1)" "real_of_int (m - 1) < real_of_int k"
    by simp_all
  then have "k < m + 1" "m - 1 < k"
    by (simp_all only: of_int_less_iff)
  then show ?thesis by linarith
qed

theorem checkOut_hours_and_status_witness:
  "\<exists>u. checkOut 18000000 ''a1'' \<lparr>lat = 0, lng = 0\<rparr> [ex_attendance Present Office]
          = (updateAttendanceDocument ''a1'' (\<lambda>_. u) [ex_attendance Present Office], Inr u)
        \<and> a_workingHours u = Some (Some 5)
        \<and> a_status u = Present"
proof -
  have h1: "getAttendanceById [ex_attendance Present Office] ''a1'' = Some (ex_attendance Present Office)"
    by (simp add: getAttendanceById_def ex_attendance_def)
  have h2: "a_checkOut (ex_attendance Present Office) = None"
    by (simp add: ex_attendance_def)
  have h3: "a_checkIn (ex_attendance Present Office) = Some 0"
    by (simp add: ex_attendance_def)
  have h4: "\<bar>18000000 - (0::int)\<bar> \<le> 10 ^ 15"
    by simp
  from checkOut_hours_and_status [OF h1 h2 h3 h4, of "\<lparr>lat = 0, lng = 0\<rparr>"]
  obtain u k where
    c: "checkOut 18000000 ''a1'' \<lparr>lat = 0, lng = 0\<rparr> [ex_attendance Present Office]
          = (updateAttendanceDocument ''a1'' (\<lambda>_. u) [ex_attendance Present Office], Inr u)"
    and w: "a_workingHours u = Some (Some (fl (real_of_int k / 100)))"
    and r: "\<bar>real_of_int k / 100 - real_of_int (18000000 - 0) / 3600000\<bar> \<le> 1 / 200"
    and s: "a_status u = (if 18000000 - 0 < 4 * msPerHour
                             \<and> a_status (ex_attendance Present Office) \<noteq> WfhStatus
                          then HalfDay else a_status (ex_attendance Present Office))"
    by blast
  have "k = 500"
    by (rule hundredths_unique [OF r]) simp_all
  then have "a_workingHours u = Some (Some 5)"
    using w by (simp add: fl_five)
  moreover have "a_status u = Present"
    using s by (simp add: msPerHour_def ex_attendance_def)
  ultimately show ?thesis
    using c by blast
qed

lemma checkOut_at:
  assumes "\<bar>checkOutTime\<bar> \<le> 10 ^ 15"
      and "real_of_int m - 1 / 2 < real_of_int checkOutTime / 3600000 * 100"
      and "real_of_int checkOutTime / 3600000 * 100 < real_of_int m + 1 / 2"
  shows "map_sum id (\<lambda>u. (a_attendanceType u, a_workingHours u, a_status u))
           (snd (checkOut checkOutTime ''a1'' location [ex_attendance st ty]))
         = Inr (ty, Some (Some (fl (real_of_int m / 100))),
                if checkOutTime < 4 * msPerHour \<and> st \<noteq> WfhStatus then HalfDay else st)"
proof -
  have h1: "getAttendanceById [ex_attendance st ty] ''a1'' = Some (ex_attendance st ty)"
    by (simp add: getAttendanceById_def ex_attendance_def)
  have h2: "a_checkOut (ex_attendance st ty) = None"
    by (simp add: ex_attendance_def)
  have h3: "a_checkIn (ex_attendance st ty) = Some 0"
    by (simp add: ex_attendance_def)
  have h4: "\<bar>checkOutTime - 0\<bar> \<le> 10 ^ 15"
    using assms(1) by simp
  from checkOut_result [OF h1 h2 h3 h4, of location] obtain k where
    c: "snd (checkOut checkOutTime ''a1'' location [ex_attendance st ty])
          = Inr ((ex_attendance st ty)\<lparr> a_checkOut := Some checkOutTime,
                            a_checkOutLocation := Some location,
                            a_workingHours := Some (Some (fl (real_of_int k / 100))),
                            a_status := (if checkOutTime - 0 < 4 * msPerHour
                                            \<and> a_status (ex_attendance st ty) \<noteq> WfhStatus
                                         then HalfDay else a_status (ex_attendance st ty)) \<rparr>)"
    and r: "\<bar>real_of_int k / 100 - real_of_int (checkOutTime - 0) / 3600000\<bar> \<le> 1 / 200"
    by fastforce
  have "k = m"
    by (rule hundredths_unique [OF r]) (use assms in simp_all)
  then show ?thesis
    unfolding c by (simp add: ex_attendance_def)
qed

text \<open>
  C2 as stated fails: the test reads the record's status, not its type, so an office
  record with status wfh is not downgraded after one hour while a wfh record with status
  present is; and the comparison uses the hours before they are rounded to two decimals,
  so after 3 h 59 min 59 s the stored workingHours is 4 and the status is half-day.
\<close>

theorem checkOut_status_counterexample:
  "map_sum id (\<lambda>u. (a_attendanceType u, a_workingHours u, a_status u))
      (snd (checkOut 3600000 ''a1'' \<lparr>lat = 0, lng = 0\<rparr> [ex_attendance WfhStatus Office]))
     = Inr (Office, Some (Some 1), WfhStatus)
   \<and> map_sum id (\<lambda>u. (a_attendanceType u, a_workingHours u, a_status u))
      (snd (checkOut 3600000 ''a1'' \<lparr>lat = 0, lng = 0\<rparr> [ex_attendance Present Wfh]))
     = Inr (Wfh, Some (Some 1), HalfDay)
   \<and> map_sum id (\<lambda>u. (a_attendanceType u, a_workingHours u, a_status u))
      (snd (checkOut 14399000 ''a1'' \<lparr>lat = 0, lng = 0\<rparr> [ex_attendance Present Office]))
     = Inr (Office, Some (Some 4), HalfDay)"
proof -
  have one: "fl (real_of_int 100 / 100) = 1"
    using fl_of_int [of 1] by simp
  have four: "fl (real_of_int 400 / 100) = 4"
    using fl_four by simp
  show ?thesis
    using checkOut_at [of 3600000 100 "\<lparr>lat = 0, lng = 0\<rparr>" WfhStatus Office]
      checkOut_at [of 3600000 100 "\<lparr>lat = 0, lng = 0\<rparr>" Present Wfh]
      checkOut_at [of 14399000 400 "\<lparr>lat = 0, lng = 0\<rparr>" Present Office]
    unfolding one four by (simp add: msPerHour_def)
qed

text \<open>
  A tie, for the record: after 522000 ms the elapsed time is 0.145 h, the double nearest
  to it lies just below, its product with 100 is 14.499999999999998, and the value
  stored is 0.14.
\<close>

lemma checkOut_tie:
  "map_sum id a_workingHours
      (snd (checkOut 522000 ''a1'' \<lparr>lat = 0, lng = 0\<rparr> [ex_attendance Present Office]))
     = Inr (Some (Some (fl (14 / 100))))"
proof -
  have d: "fl 522000 = 522000"
    using fl_of_int [of 522000] by simp
  have q: "(522000::real) / real_of_int msPerHour = 29 / 200"
    by (simp add: msPerHour_def)
  have r: "Math_round (8162774324609023 / 562949953421312) = 14"
    by (simp add: Math_round_def)
  show ?thesis
    unfolding checkOut_def Let_def
    by (simp add: getAttendanceById_def ex_attendance_def d q fl_tie_hours fl_tie_product r)
qed

section \<open>Properties of approving and rejecting leave\<close>

lemma approveLeave_with_employee:
  assumes "getLeaveById (leaves db) leaveId = Some leave"
      and "l_status leave = Pending"
      and "leaveTypeMap (l_leaveType leave) = Some key"
      and "getEmployee (employees db) (l_employeeId leave) = Some emp"
      and "leaveUpdateAccepted reviewedBy reviewerName (approvalComments comments)"
  shows "\<exists>db' u. approveLeave now leaveId reviewedBy reviewerName comments db = (db', Inr u)
           \<and> getLeaveById (leaves db') leaveId = Some u
           \<and> l_status u = Approved
           \<and> l_reviewedBy u = Some reviewedBy
           \<and> l_reviewerName u = Some reviewerName
           \<and> l_reviewedDate u = Some (isoDate now)
           \<and> balanceGet (getLeaveBalance (employees db') (l_employeeId leave)) key
               = max 0 (balanceGet (getLeaveBalance (employees db) (l_employeeId leave)) key - l_days leave)
           \<and> 0 \<le> balanceGet (getLeaveBalance (employees db') (l_employeeId leave)) key"
proof -
  obtain coll' where c: "updateLeaveBalance (employees db) (l_employeeId leave) key (- l_days leave) = Inr coll'"
     and b: "getLeaveBalance coll' (l_employeeId leave)
               = balanceSet (getLeaveBalance (employees db) (l_employeeId leave)) key
                   (max 0 (balanceGet (getLeaveBalance (employees db) (l_employeeId leave)) key + (- l_days leave)))"
    using updateLeaveBalance_result [OF assms(4), of key "- l_days leave"] by blast
  define u where "u = leave
                        \<lparr> l_status := Approved,
                          l_reviewedBy := Some reviewedBy,
                          l_reviewerName := Some reviewerName,
                          l_reviewedDate := Some (isoDate now),
                          l_comments := Some (approvalComments comments) \<rparr>"
  have id: "l_id u = leaveId"
    using assms(1) find_key [of l_id leaveId "leaves db" leave] by (simp add: u_def getLeaveById_def)
  have res: "approveLeave now leaveId reviewedBy reviewerName comments db
          = (\<lparr> employees = coll', leaves = updateLeaveDocument leaveId (\<lambda>_. u) (leaves db) \<rparr>, Inr u)"
    using assms c by (simp add: approveLeave_def Let_def u_def)
  have g: "getLeaveById (updateLeaveDocument leaveId (\<lambda>_. u) (leaves db)) leaveId = Some u"
    using getLeaveById_updated [OF assms(1) id] .
  show ?thesis
    using res g b by (simp add: u_def balanceGet_balanceSet)
qed

lemma approveLeave_needs_employee:
  assumes "getLeaveById (leaves db) leaveId = Some leave"
      and "leaveTypeMap (l_leaveType leave) = Some key"
      and "approveLeave now leaveId reviewedBy reviewerName comments db = (db', Inr u)"
  shows "(\<exists>emp. getEmployee (employees db) (l_employeeId leave) = Some emp)
         \<and> leaveUpdateAccepted reviewedBy reviewerName (approvalComments comments)"
proof -
  from assms have "list_ex (\<lambda>e. e_id e = l_employeeId leave) (employees db)"
    and acc: "leaveUpdateAccepted reviewedBy reviewerName (approvalComments comments)"
    by (auto simp: approveLeave_def updateLeaveBalance_def updateEmployee_def Let_def
             split: if_splits sum.splits)
  then have "find (\<lambda>e. e_id e = l_employeeId leave) (employees db) \<noteq> None"
    by (auto simp: find_None_iff list_ex_iff)
  with acc show ?thesis
    by (auto simp: getEmployee_def)
qed

text \<open>
  C7. For a pending request whose leave type maps to a balance category, the approval
  goes through exactly when the employee's document exists and the store takes the
  reviewer fields, and every approval that goes through leaves the stored request with
  status approved and with reviewedBy, reviewerName and reviewedDate set, and the
  employee's balance in that category at max(0, old balance - days), which is never
  negative.
\<close>

theorem approveLeave_deducts:
  assumes "getLeaveById (leaves db) leaveId = Some leave"
      and "l_status leave = Pending"
      and "leaveTypeMap (l_leaveType leave) = Some key"
  shows "((\<exists>db' u. approveLeave now leaveId reviewedBy reviewerName comments db = (db', Inr u))
          = ((\<exists>emp. getEmployee (employees db) (l_employeeId leave) = Some emp)
             \<and> leaveUpdateAccepted reviewedBy reviewerName (approvalComments comments)))
       \<and> (\<forall>db' u. approveLeave now leaveId reviewedBy reviewerName comments db = (db', Inr u)
            \<longrightarrow> getLeaveById (leaves db') leaveId = Some u
                \<and> l_status u = Approved
                \<and> l_reviewedBy u = Some reviewedBy
                \<and> l_reviewerName u = Some reviewerName
                \<and> l_reviewedDate u = Some (isoDate now)
                \<and> balanceGet (getLeaveBalance (employees db') (l_employeeId leave)) key
                    = max 0 (balanceGet (getLeaveBalance (employees db) (l_employeeId leave)) key
                             - l_days leave)
                \<and> 0 \<le> balanceGet (getLeaveBalance (employees db') (l_employeeId leave)) key)"
proof (intro conjI allI impI)
  show "(\<exists>db' u. approveLeave now leaveId reviewedBy reviewerName comments db = (db', Inr u))
          = ((\<exists>emp. getEmployee (employees db) (l_employeeId leave) = Some emp)
             \<and> leaveUpdateAccepted reviewedBy reviewerName (approvalComments comments))"
    using approveLeave_needs_employee [OF assms(1,3)] approveLeave_with_employee [OF assms]
    by blast
next
  fix db' u
  assume ok: "approveLeave now leaveId reviewedBy reviewerName comments db = (db', Inr u)"
  then obtain emp where "getEmployee (employees db) (l_employeeId leave) = Some emp"
    and "leaveUpdateAccepted reviewedBy reviewerName (approvalComments comments)"
    using approveLeave_needs_employee [OF assms(1,3)] by blast
  from approveLeave_with_employee [OF assms this, of now] ok
  have e: "getLeaveById (leaves db') leaveId = Some u \<and> l_status u = Approved
         \<and> l_reviewedBy u = Some reviewedBy \<and> l_reviewerName u = Some reviewerName
         \<and> l_reviewedDate u = Some (isoDate now)
         \<and> balanceGet (getLeaveBalance (employees db') (l_employeeId leave)) key
             = max 0 (balanceGet (getLeaveBalance (employees db) (l_employeeId leave)) key - l_days leave)"
    by auto
  then show "getLeaveById (leaves db') leaveId = Some u" "l_status u = Approved"
    "l_reviewedBy u = Some reviewedBy" "l_reviewerName u = Some reviewerName"
    "l_reviewedDate u = Some (isoDate now)"
    "balanceGet (getLeaveBalance (employees db') (l_employeeId leave)) key
       = max 0 (balanceGet (getLeaveBalance (employees db) (l_employeeId leave)) key - l_days leave)"
    by blast+
  from e show "0 \<le> balanceGet (getLeaveBalance (employees db') (l_employeeId leave)) key"
    by simp
qed

theorem approveLeave_deducts_witness:
  "\<exists>db' u. approveLeave 0 ''l1'' ''adm'' ''Admin'' None
               \<lparr> employees = [ex_employee (Some (BalanceJson defaultBalance))],
                 leaves = [ex_leave ''l1'' CasualLeave 1 8 Pending] \<rparr> = (db', Inr u)
           \<and> getLeaveById (leaves db') ''l1'' = Some u
           \<and> l_status u = Approved
           \<and> balanceGet (getLeaveBalance (employees db') ''e1'') Casual = 0"
proof -
  let ?db = "\<lparr> employees = [ex_employee (Some (BalanceJson defaultBalance))],
               leaves = [ex_leave ''l1'' CasualLeave 1 8 Pending] \<rparr>"
  let ?leave = "ex_leave ''l1'' CasualLeave 1 8 Pending"
  have h1: "getLeaveById (leaves ?db) ''l1'' = Some ?leave"
    by (simp add: getLeaveById_def ex_leave_def)
  have h2: "l_status ?leave = Pending"
    by (simp add: ex_leave_def)
  have h3: "leaveTypeMap (l_leaveType ?leave) = Some Casual"
    by (simp add: ex_leave_def)
  have h4: "getEmployee (employees ?db) (l_employeeId ?leave)
              = Some (ex_employee (Some (BalanceJson defaultBalance)))"
    by (simp add: getEmployee_def ex_leave_def ex_employee_def)
  have h5: "leaveUpdateAccepted ''adm'' ''Admin'' (approvalComments None)"
    by (simp add: leaveUpdateAccepted_def approvalComments_def)
  have before: "max 0 (balanceGet (getLeaveBalance (employees ?db) ''e1'') Casual
                       - l_days ?leave) = 0"
    by (simp add: getLeaveBalance_def getEmployee_def ex_leave_def ex_employee_def defaultBalance_def)
  have e: "l_employeeId ?leave = ''e1''"
    by (simp add: ex_leave_def)
  note inst = approveLeave_deducts [OF h1 h2 h3, of 0 "''adm''" "''Admin''" None]
  from inst h4 h5 obtain db' u where ok: "approveLeave 0 ''l1'' ''adm'' ''Admin'' None ?db = (db', Inr u)"
    by blast
  with inst have "getLeaveById (leaves db') ''l1'' = Some u" "l_status u = Approved"
      "balanceGet (getLeaveBalance (employees db') (l_employeeId ?leave)) Casual
         = max 0 (balanceGet (getLeaveBalance (employees ?db) (l_employeeId ?leave)) Casual - l_days ?leave)"
    by blast+
  with ok show ?thesis
    unfolding e before by blast
qed

lemma approveLeave_success:
  assumes "approveLeave now leaveId reviewedBy reviewerName comments db = (db', Inr u)"
  shows "getLeaveById (leaves db') leaveId = Some u \<and> l_status u = Approved"
proof -
  from assms obtain leave where l: "getLeaveById (leaves db) leaveId = Some leave"
    by (auto simp: approveLeave_def split: option.splits)
  then have id: "l_id leave = leaveId"
    using find_key [of l_id leaveId "leaves db" leave] by (simp add: getLeaveById_def)
  from assms l have u: "l_id u = leaveId" "l_status u = Approved"
      "leaves db' = updateLeaveDocument leaveId (\<lambda>_. u) (leaves db)"
    using id by (auto simp: approveLeave_def Let_def split: if_splits sum.splits)
  show ?thesis
    using getLeaveById_updated [OF l u(1)] u by simp
qed

lemma rejectLeave_success:
  assumes "rejectLeave now leaveId reviewedBy reviewerName comments db = (db', Inr u)"
  shows "getLeaveById (leaves db') leaveId = Some u \<and> l_status u = Rejected"
proof -
  from assms obtain leave where l: "getLeaveById (leaves db) leaveId = Some leave"
    by (auto simp: rejectLeave_def split: option.splits if_splits)
  then have id: "l_id leave = leaveId"
    using find_key [of l_id leaveId "leaves db" leave] by (simp add: getLeaveById_def)
  from assms l have u: "l_id u = leaveId" "l_status u = Rejected"
      "leaves db' = updateLeaveDocument leaveId (\<lambda>_. u) (leaves db)"
    using id by (auto simp: rejectLeave_def Let_def split: if_splits)
  show ?thesis
    using getLeaveById_updated [OF l u(1)] u by simp
qed

lemma processed_rejects:
  assumes "getLeaveById (leaves db) leaveId = Some leave" and "l_status leave \<noteq> Pending"
  shows "approveLeave now leaveId reviewedBy reviewerName comments db = (db, Inl AlreadyProcessed)"
    and "rejectLeave now leaveId reviewedBy reviewerName reason db
           = (db, Inl (if reason = [] then MissingRejectionReason else AlreadyProcessed))"
  using assms by (simp_all add: approveLeave_def rejectLeave_def)

text \<open>
  C10, as amended. On a request whose status is approved or rejected, \<open>approveLeave\<close>
  throws \<open>This leave request has already been processed\<close> and \<open>rejectLeave\<close> throws
  too, in both cases with every collection unchanged; \<open>rejectLeave\<close> throws that same
  error when a comment is given and \<open>Please provide a reason for rejection\<close> when the
  comment is empty.  Once an approval or a rejection has gone through, a further approval
  throws and changes nothing.
\<close>

theorem processed_leave_is_final:
  "(getLeaveById (leaves db) leaveId = Some leave \<and> l_status leave \<noteq> Pending
      \<longrightarrow> approveLeave now leaveId reviewedBy reviewerName comments db = (db, Inl AlreadyProcessed)
          \<and> rejectLeave now leaveId reviewedBy reviewerName reason db
              = (db, Inl (if reason = [] then MissingRejectionReason else AlreadyProcessed)))
   \<and> (approveLeave now0 leaveId reviewedBy0 reviewerName0 comments0 db0 = (db, Inr u)
      \<longrightarrow> approveLeave now leaveId reviewedBy reviewerName comments db = (db, Inl AlreadyProcessed))
   \<and> (rejectLeave now0 leaveId reviewedBy0 reviewerName0 reason0 db0 = (db, Inr u)
      \<longrightarrow> approveLeave now leaveId reviewedBy reviewerName comments db = (db, Inl AlreadyProcessed))"
proof (intro conjI impI)
  assume a: "getLeaveById (leaves db) leaveId = Some leave \<and> l_status leave \<noteq> Pending"
  then show "approveLeave now leaveId reviewedBy reviewerName comments db = (db, Inl AlreadyProcessed)"
    using processed_rejects(1) by blast
  from a show "rejectLeave now leaveId reviewedBy reviewerName reason db
              = (db, Inl (if reason = [] then MissingRejectionReason else AlreadyProcessed))"
    using processed_rejects(2) by blast
next
  assume "approveLeave now0 leaveId reviewedBy0 reviewerName0 comments0 db0 = (db, Inr u)"
  then have "getLeaveById (leaves db) leaveId = Some u" "l_status u \<noteq> Pending"
    using approveLeave_success by fastforce+
  then show "approveLeave now leaveId reviewedBy reviewerName comments db = (db, Inl AlreadyProcessed)"
    by (rule processed_rejects(1))
next
  assume "rejectLeave now0 leaveId reviewedBy0 reviewerName0 reason0 db0 = (db, Inr u)"
  then have "getLeaveById (leaves db) leaveId = Some u" "l_status u \<noteq> Pending"
    using rejectLeave_success by fastforce+
  then show "approveLeave now leaveId reviewedBy reviewerName comments db = (db, Inl AlreadyProcessed)"
    by (rule processed_rejects(1))
qed

theorem processed_leave_is_final_witness:
  "approveLeave 0 ''l1'' ''adm'' ''Admin'' None
       \<lparr> employees = [ex_employee (Some (BalanceJson defaultBalance))],
         leaves = [ex_leave ''l1'' CasualLeave 1 2 Approved] \<rparr>
     = (\<lparr> employees = [ex_employee (Some (BalanceJson defaultBalance))],
          leaves = [ex_leave ''l1'' CasualLeave 1 2 Approved] \<rparr>, Inl AlreadyProcessed)
   \<and> rejectLeave 0 ''l1'' ''adm'' ''Admin'' ''no cover''
       \<lparr> employees = [ex_employee (Some (BalanceJson defaultBalance))],
         leaves = [ex_leave ''l1'' CasualLeave 1 2 Approved] \<rparr>
     = (\<lparr> employees = [ex_employee (Some (BalanceJson defaultBalance))],
          leaves = [ex_leave ''l1'' CasualLeave 1 2 Approved] \<rparr>, Inl AlreadyProcessed)"
  using processed_leave_is_final [where db = "\<lparr> employees = [ex_employee (Some (BalanceJson defaultBalance))],
         leaves = [ex_leave ''l1'' CasualLeave 1 2 Approved] \<rparr>" and leaveId = "''l1''"
         and leave = "ex_leave ''l1'' CasualLeave 1 2 Approved" and now = 0 and reviewedBy = "''adm''"
         and reviewerName = "''Admin''" and comments = None and reason = "''no cover''"
         and db0 = "\<lparr> employees = [], leaves = [] \<rparr>" and u = "ex_leave ''l1'' CasualLeave 1 2 Approved"
         and reviewedBy0 = "''adm''" and reviewerName0 = "''Admin''" and comments0 = None
         and reason0 = "''x''"]
  by (simp add: getLeaveById_def ex_leave_def)

lemma ex_refused_approval:
  "approveLeave 0 ''l1'' ''adm'' ''Admin'' (Some (replicate 2001 CHR ''x''))
       \<lparr> employees = [ex_employee (Some (BalanceJson defaultBalance))],
         leaves = [ex_leave ''l1'' CasualLeave 1 2 Pending] \<rparr>
     = (\<lparr> employees = [ex_employee (Some (BalanceJson \<lparr> casual = 4, sick = 6, earned = 12 \<rparr>))],
          leaves = [ex_leave ''l1'' CasualLeave 1 2 Pending] \<rparr>, Inl DocumentInvalid)"
  by (simp add: approveLeave_def Let_def getLeaveById_def ex_leave_def ex_employee_def
        updateLeaveBalance_def updateEmployee_def getLeaveBalance_def getEmployee_def
        defaultBalance_def leaveUpdateAccepted_def approvalComments_def)

lemma ex_retried_approval:
  "map_prod employees (map_sum id l_status)
     (approveLeave 0 ''l1'' ''adm'' ''Admin'' None
       \<lparr> employees = [ex_employee (Some (BalanceJson \<lparr> casual = 4, sick = 6, earned = 12 \<rparr>))],
         leaves = [ex_leave ''l1'' CasualLeave 1 2 Pending] \<rparr>)
     = ([ex_employee (Some (BalanceJson \<lparr> casual = 2, sick = 6, earned = 12 \<rparr>))], Inr Approved)"
  by (simp add: approveLeave_def Let_def getLeaveById_def ex_leave_def ex_employee_def
        updateLeaveBalance_def updateEmployee_def getLeaveBalance_def getEmployee_def
        leaveUpdateAccepted_def approvalComments_def)

text \<open>
  C10 as stated fails twice.  \<open>rejectLeave\<close> with an empty comment on an approved
  request throws the missing-reason error, not the already-processed one: the comment
  is tested before the request is read.  And a balance can be deducted twice for one
  request: an approval with a comment of 2001 characters writes the new balance (casual
  6 to 4 for a two-day request) and is then refused by the store, so the request stays
  pending; approving it again deducts once more (4 to 2).
\<close>

theorem rejectLeave_processed_counterexample:
  "rejectLeave 0 ''l1'' ''adm'' ''Admin'' []
       \<lparr> employees = [ex_employee (Some (BalanceJson defaultBalance))],
         leaves = [ex_leave ''l1'' CasualLeave 1 2 Approved] \<rparr>
     = (\<lparr> employees = [ex_employee (Some (BalanceJson defaultBalance))],
          leaves = [ex_leave ''l1'' CasualLeave 1 2 Approved] \<rparr>, Inl MissingRejectionReason)
   \<and> approveLeave 0 ''l1'' ''adm'' ''Admin'' (Some (replicate 2001 CHR ''x''))
       \<lparr> employees = [ex_employee (Some (BalanceJson defaultBalance))],
         leaves = [ex_leave ''l1'' CasualLeave 1 2 Pending] \<rparr>
     = (\<lparr> employees = [ex_employee (Some (BalanceJson \<lparr> casual = 4, sick = 6, earned = 12 \<rparr>))],
          leaves = [ex_leave ''l1'' CasualLeave 1 2 Pending] \<rparr>, Inl DocumentInvalid)
   \<and> map_prod employees (map_sum id l_status)
       (approveLeave 0 ''l1'' ''adm'' ''Admin'' None
         \<lparr> employees = [ex_employee (Some (BalanceJson \<lparr> casual = 4, sick = 6, earned = 12 \<rparr>))],
           leaves = [ex_leave ''l1'' CasualLeave 1 2 Pending] \<rparr>)
     = ([ex_employee (Some (BalanceJson \<lparr> casual = 2, sick = 6, earned = 12 \<rparr>))], Inr Approved)"
  using ex_refused_approval ex_retried_approval by (simp add: rejectLeave_def)

section \<open>Properties of employee id generation\<close>

lemma fl_two_53: "fl (2 ^ 53) = 2 ^ 53"
proof -
  have "fl (2 ^ 53) = real_of_int (roundHalfEven ((2 ^ 53) / 2 powr real_of_int (53 - 52)))
                        * 2 powr real_of_int (53 - 52)"
    by (rule fl_eval) simp_all
  also have "\<dots> = 2 ^ 53"
    by (simp add: roundHalfEven_def Let_def)
  finally show ?thesis .
qed

lemma fl_of_nat:
  assumes "n \<le> 2 ^ 53"
  shows "fl (real n) = real n"
proof (cases "n = 2 ^ 53")
  case True
  then show ?thesis using fl_two_53 by simp
next
  case False
  with assms have "n < 2 ^ 53" by simp
  then have "\<bar>int n\<bar> < 2 ^ 53" by simp
  from fl_of_int [OF this] show ?thesis by simp
qed

lemma parseInt10_exact: "digitsValue ds < 2 ^ 53 \<Longrightarrow> parseInt10 ds = real (digitsValue ds)"
  by (simp add: parseInt10_def fl_of_nat)

lemma scanEmployee_max:
  assumes "\<forall>n. employeeNumber emp = Some n \<longrightarrow> n < 2 ^ 53"
  shows "scanEmployee (real m) emp
           = real (case employeeNumber emp of None \<Rightarrow> m | Some n \<Rightarrow> max m n)"
proof (cases "employeeNumber emp")
  case None
  then show ?thesis
    by (auto simp: scanEmployee_def employeeNumber_def matchGW_def split: option.splits)
next
  case (Some n)
  then obtain s ds where s: "e_employeeId emp = Some s" "matchGW s = Some ds" "digitsValue ds = n"
    by (auto simp: employeeNumber_def split: option.splits)
  from Some assms have "n < 2 ^ 53" by simp
  then have p: "parseInt10 ds = real n"
    using s(3) parseInt10_exact by blast
  from s(2) have "s \<noteq> []"
    by (auto simp: matchGW_def)
  then show ?thesis
    using Some s p by (simp add: scanEmployee_def Let_def max_def)
qed

lemma foldl_scanEmployee:
  assumes "\<forall>n \<in> set (List.map_filter employeeNumber docs). n < 2 ^ 53"
  shows "foldl scanEmployee (real m) docs = real (Max (set (m # List.map_filter employeeNumber docs)))"
  using assms
proof (induction docs arbitrary: m)
  case Nil
  show ?case by (simp add: map_filter_simps)
next
  case (Cons emp docs)
  show ?case
  proof (cases "employeeNumber emp")
    case None
    then have rest: "\<forall>n \<in> set (List.map_filter employeeNumber docs). n < 2 ^ 53"
      using Cons.prems by (simp add: map_filter_simps)
    have "scanEmployee (real m) emp = real m"
      using None scanEmployee_max [of emp m] by simp
    then show ?thesis
      using None Cons.IH [OF rest, of m] by (simp add: map_filter_simps)
  next
    case (Some n)
    then have rest: "\<forall>n \<in> set (List.map_filter employeeNumber docs). n < 2 ^ 53"
      and small: "n < 2 ^ 53"
      using Cons.prems by (simp_all add: map_filter_simps)
    have step: "scanEmployee (real m) emp = real (max m n)"
      using Some small scanEmployee_max [of emp m] by simp
    have "Max (insert (max m n) (set (List.map_filter employeeNumber docs)))
            = Max (insert m (insert n (set (List.map_filter employeeNumber docs))))"
      by (cases "set (List.map_filter employeeNumber docs) = {}") (simp_all add: max.assoc)
    with Some show ?thesis
      using Cons.IH [OF rest, of "max m n"] by (simp add: step map_filter_simps)
  qed
qed

lemma highestNumber_small:
  assumes "\<forall>n \<in> set (List.map_filter employeeNumber docs). n < 2 ^ 53"
  shows "highestNumber docs < 2 ^ 53"
proof -
  have "Max (set (0 # List.map_filter employeeNumber docs)) \<in> set (0 # List.map_filter employeeNumber docs)"
    by (rule Max_in) simp_all
  with assms show ?thesis
    by (auto simp: highestNumber_def)
qed

lemma Number_toString_nat: "n \<le> 2 ^ 53 \<Longrightarrow> Number_toString (real n) = Some (toString n)"
proof -
  assume "n \<le> 2 ^ 53"
  then have "real n \<le> 2 ^ 53"
    by (metis of_nat_le_iff of_nat_numeral of_nat_power)
  then show ?thesis
    by (simp add: Number_toString_def)
qed

lemma generateEmployeeId_ok:
  assumes "\<forall>n \<in> set (List.map_filter employeeNumber (take 100 (rev coll))). n < 2 ^ 53"
  shows "generateEmployeeId True clock coll
     = Some (''GW-'' @ padStart 6 CHR ''0'' (toString (1 + highestNumber (take 100 (rev coll)))))"
proof -
  let ?h = "highestNumber (take 100 (rev coll))"
  have m: "foldl scanEmployee 0 (take 100 (rev coll)) = real ?h"
    using foldl_scanEmployee [OF assms, of 0] by (simp add: highestNumber_def)
  have "?h < 2 ^ 53" using assms by (rule highestNumber_small)
  then have le: "1 + ?h \<le> 2 ^ 53" by simp
  have "fl (real ?h + 1) = real (1 + ?h)"
    using fl_of_nat [OF le] by (simp add: add.commute)
  then show ?thesis
    using Number_toString_nat [OF le] by (simp add: generateEmployeeId_def Let_def m)
qed

lemma digitVal_digitChar: "d < 10 \<Longrightarrow> digitVal (digitChar d) = d"
proof -
  assume "d < 10"
  then have "d \<in> {0, 1, 2, 3, 4, 5, 6, 7, 8, 9}" by auto
  then show ?thesis
    by (auto simp: digitVal_def digitChar_def)
qed

lemma isDigit_digitChar: "d < 10 \<Longrightarrow> isDigit (digitChar d)"
proof -
  assume "d < 10"
  then have "d \<in> {0, 1, 2, 3, 4, 5, 6, 7, 8, 9}" by auto
  then show ?thesis
    by (auto simp: isDigit_def digitChar_def)
qed

lemma digitsValue_snoc: "digitsValue (ds @ [c]) = 10 * digitsValue ds + digitVal c"
  by (simp add: digitsValue_def)

lemma digitsValue_toString: "digitsValue (toString n) = n"
proof (induction n rule: toString.induct)
  case (1 n)
  show ?case
  proof (cases "n < 10")
    case True
    then show ?thesis
      by (subst toString.simps) (simp add: digitsValue_def digitVal_digitChar)
  next
    case False
    with "1" have "digitsValue (toString (n div 10)) = n div 10" by simp
    with False show ?thesis
      by (subst toString.simps) (simp add: digitsValue_snoc digitVal_digitChar)
  qed
qed

lemma toString_digits: "list_all isDigit (toString n)"
proof (induction n rule: toString.induct)
  case (1 n)
  show ?case
  proof (cases "n < 10")
    case True
    then show ?thesis
      by (subst toString.simps) (simp add: isDigit_digitChar)
  next
    case False
    with "1" have "list_all isDigit (toString (n div 10))" by simp
    with False show ?thesis
      by (subst toString.simps) (simp add: isDigit_digitChar)
  qed
qed

lemma toString_nonempty: "toString n \<noteq> []"
  by (subst toString.simps) simp

lemma toString_length: "n < 10 ^ k \<Longrightarrow> 0 < k \<Longrightarrow> length (toString n) \<le> k"
proof (induction k arbitrary: n)
  case 0
  then show ?case by simp
next
  case (Suc k)
  show ?case
  proof (cases "n < 10")
    case True
    then show ?thesis by (subst toString.simps) simp
  next
    case False
    with Suc.prems have k: "0 < k" by (cases k) auto
    from Suc.prems have "n div 10 < 10 ^ k"
      by (simp add: less_mult_imp_div_less mult.commute)
    with Suc.IH k have "length (toString (n div 10)) \<le> k" by blast
    with False show ?thesis by (subst toString.simps) simp
  qed
qed

lemma toString_length_ge: "10 ^ k \<le> n \<Longrightarrow> k < length (toString n)"
proof (induction k arbitrary: n)
  case 0
  then show ?case using toString_nonempty [of n] by (cases "toString n") simp_all
next
  case (Suc k)
  then have big: "\<not> n < 10"
    by (metis One_nat_def le_trans not_less one_le_numeral one_le_power power_Suc
          mult.right_neutral mult_le_mono2 power_one_right)
  from Suc.prems have "10 ^ k \<le> n div 10"
    by (simp add: less_eq_div_iff_mult_less_eq mult.commute)
  with Suc.IH have "k < length (toString (n div 10))" by blast
  with big show ?case by (subst toString.simps) simp
qed

lemma digitsValue_zeros: "digitsValue (replicate k CHR ''0'' @ ds) = digitsValue ds"
proof -
  have "foldl (\<lambda>n c. 10 * n + digitVal c) 0 (replicate k CHR ''0'') = 0"
    by (induction k) (simp_all add: digitVal_def)
  then show ?thesis by (simp add: digitsValue_def)
qed

lemma padStart_length: "length (padStart 6 c s) = max 6 (length s)"
  by (simp add: padStart_def)

lemma padStart_digits: "list_all isDigit (padStart 6 CHR ''0'' (toString n))"
proof -
  have z: "isDigit CHR ''0''"
    by (simp add: isDigit_def)
  show ?thesis
    using toString_digits [of n] z by (auto simp: padStart_def list_all_iff)
qed

lemma toString_one: "toString (Suc 0) = ''1''"
  by (subst toString.simps) (simp add: digitChar_def)

lemma padStart_one: "padStart 6 CHR ''0'' ''1'' = ''000001''"
  by (simp add: padStart_def eval_nat_numeral)

text \<open>
  C9, as amended. When the listing succeeds and every suffix met is below \<open>2^53\<close>, the
  generated id is \<open>GW-\<close> followed by the decimal digits of 1 + the highest suffix among
  the ids of the form \<open>GW-<digits>\<close> in the 100 most recently created employee
  documents, padded on the left with zeros to six digits: six digits exactly while that
  number is below one million, and its own seven or more digits from one million on.  It
  is \<open>GW-000001\<close> when no id matches.
\<close>

theorem generateEmployeeId_next:
  assumes "\<forall>n \<in> set (List.map_filter employeeNumber (take 100 (rev coll))). n < 2 ^ 53"
  shows "generateEmployeeId True clock coll
           = Some (''GW-'' @ padStart 6 CHR ''0'' (toString (1 + highestNumber (take 100 (rev coll)))))
       \<and> (\<exists>ds. generateEmployeeId True clock coll = Some (''GW-'' @ ds)
                \<and> list_all isDigit ds
                \<and> digitsValue ds = 1 + highestNumber (take 100 (rev coll))
                \<and> (1 + highestNumber (take 100 (rev coll)) < 1000000 \<longrightarrow> length ds = 6)
                \<and> (1000000 \<le> 1 + highestNumber (take 100 (rev coll))
                     \<longrightarrow> ds = toString (1 + highestNumber (take 100 (rev coll))) \<and> 6 < length ds))
       \<and> (List.map_filter employeeNumber (take 100 (rev coll)) = []
            \<longrightarrow> generateEmployeeId True clock coll = Some ''GW-000001'')"
proof (intro conjI impI)
  let ?n = "1 + highestNumber (take 100 (rev coll))"
  let ?ds = "padStart 6 CHR ''0'' (toString ?n)"
  show eq: "generateEmployeeId True clock coll = Some (''GW-'' @ ?ds)"
    using assms by (rule generateEmployeeId_ok)
  have digits: "list_all isDigit ?ds"
    by (rule padStart_digits)
  have val: "digitsValue ?ds = ?n"
    unfolding padStart_def by (simp only: digitsValue_zeros digitsValue_toString)
  have small: "?n < 1000000 \<longrightarrow> length ?ds = 6"
  proof
    assume "?n < 1000000"
    then have "length (toString ?n) \<le> 6"
      using toString_length [of ?n 6] by simp
    then show "length ?ds = 6"
      by (simp add: padStart_length)
  qed
  have large: "1000000 \<le> ?n \<longrightarrow> ?ds = toString ?n \<and> 6 < length ?ds"
  proof
    assume "1000000 \<le> ?n"
    then have "6 < length (toString ?n)"
      using toString_length_ge [of 6 ?n] by simp
    then show "?ds = toString ?n \<and> 6 < length ?ds"
      by (simp add: padStart_def)
  qed
  show "\<exists>ds. generateEmployeeId True clock coll = Some (''GW-'' @ ds)
                \<and> list_all isDigit ds
                \<and> digitsValue ds = ?n
                \<and> (?n < 1000000 \<longrightarrow> length ds = 6)
                \<and> (1000000 \<le> ?n \<longrightarrow> ds = toString ?n \<and> 6 < length ds)"
    using eq digits val small large by blast
next
  assume none: "List.map_filter employeeNumber (take 100 (rev coll)) = []"
  then have "highestNumber (take 100 (rev coll)) = 0"
    by (simp add: highestNumber_def)
  then show "generateEmployeeId True clock coll = Some ''GW-000001''"
    using generateEmployeeId_ok [OF assms, of clock] by (simp add: toString_one padStart_one)
qed

lemma ex_staff_numbers: "List.map_filter employeeNumber (take 100 (rev ex_staff)) = [12, 7]"
  by (simp add: ex_staff_def map_filter_simps employeeNumber_def matchGW_def isDigit_def
        digitsValue_def digitVal_def)

lemma toString_13: "toString 13 = ''13''"
  by (subst toString.simps, subst toString.simps) (simp add: digitChar_def)

lemma padStart_13: "padStart 6 CHR ''0'' ''13'' = ''000013''"
  by (simp add: padStart_def eval_nat_numeral)

theorem generateEmployeeId_next_witness:
  "generateEmployeeId True 0 ex_staff = Some ''GW-000013''
   \<and> generateEmployeeId True 0 [] = Some ''GW-000001''"
proof -
  have h: "highestNumber (take 100 (rev ex_staff)) = 12"
    by (simp add: highestNumber_def ex_staff_numbers)
  have small: "\<forall>n \<in> set (List.map_filter employeeNumber (take 100 (rev ex_staff))). n < 2 ^ 53"
    by (simp add: ex_staff_numbers)
  have none: "\<forall>n \<in> set (List.map_filter employeeNumber (take 100 (rev ([]::Employee list)))). n < 2 ^ 53"
    by (simp add: map_filter_simps)
  have "generateEmployeeId True 0 ex_staff = Some (''GW-'' @ padStart 6 CHR ''0'' (toString (1 + 12)))"
    using generateEmployeeId_next [OF small, of 0, THEN conjunct1] h by simp
  moreover have "generateEmployeeId True 0 [] = Some ''GW-000001''"
    using generateEmployeeId_next [OF none, of 0, THEN conjunct2, THEN conjunct2]
    by (simp add: map_filter_simps)
  ultimately show ?thesis
    by (simp add: toString_13 padStart_13)
qed


lemma toString_digit: "n < 10 \<Longrightarrow> toString n = [digitChar n]"
  by (subst toString.simps) simp

lemma toString_step: "10 \<le> n \<Longrightarrow> toString n = toString (n div 10) @ [digitChar (n mod 10)]"
  by (subst toString.simps) simp

lemma toString_million: "toString 1000000 = ''1000000''"
  by (simp add: toString_step toString_digit digitChar_def)

lemma toString_two_53: "toString 9007199254740992 = ''9007199254740992''"
  by (simp add: toString_step toString_digit digitChar_def)

lemma fl_two_53_plus_one: "fl 9007199254740993 = 9007199254740992"
proof -
  have "fl 9007199254740993
          = real_of_int (roundHalfEven (9007199254740993 / 2 powr real_of_int (53 - 52)))
              * 2 powr real_of_int (53 - 52)"
    by (rule fl_eval) simp_all
  also have "\<dots> = 9007199254740992"
    by (simp add: roundHalfEven_def Let_def)
  finally show ?thesis .
qed

lemma ex_numbers:
  "List.map_filter employeeNumber (take 100 (rev [ex_staffer ''GW-999999''])) = [999999]"
  "List.map_filter employeeNumber (take 100 (rev [ex_staffer ''GW-9007199254740993'']))
     = [9007199254740993]"
  by (simp_all add: ex_staffer_def map_filter_simps employeeNumber_def matchGW_def isDigit_def
        digitsValue_def digitVal_def)

lemma ex_scan_large: "scanEmployee 0 (ex_staffer ''GW-9007199254740993'') = 9007199254740992"
proof -
  have "digitsValue ''9007199254740993'' = 9007199254740993"
    by (simp add: digitsValue_def digitVal_def)
  then have "parseInt10 ''9007199254740993'' = 9007199254740992"
    by (simp add: parseInt10_def fl_two_53_plus_one)
  then show ?thesis
    by (simp add: scanEmployee_def ex_staffer_def matchGW_def isDigit_def Let_def)
qed

text \<open>
  C9 as stated fails twice.  After \<open>GW-999999\<close> the id has seven digits, since
  \<open>padStart\<close> pads and never cuts.  And a suffix above \<open>2^53\<close> is not read exactly:
  \<open>GW-9007199254740993\<close> parses to 9007199254740992, adding 1 gives the same double
  again, and the id generated is \<open>GW-9007199254740992\<close>, two below 1 + the highest
  suffix.
\<close>

theorem generateEmployeeId_counterexample:
  "generateEmployeeId True 0 [ex_staffer ''GW-999999''] = Some ''GW-1000000''
   \<and> generateEmployeeId True 0 [ex_staffer ''GW-9007199254740993''] = Some ''GW-9007199254740992''
   \<and> 1 + highestNumber (take 100 (rev [ex_staffer ''GW-9007199254740993''])) = 9007199254740994"
proof (intro conjI)
  have small: "\<forall>n \<in> set (List.map_filter employeeNumber (take 100 (rev [ex_staffer ''GW-999999'']))).
                 n < 2 ^ 53"
    unfolding ex_numbers by simp
  have "highestNumber (take 100 (rev [ex_staffer ''GW-999999''])) = 999999"
    unfolding highestNumber_def ex_numbers by simp
  then show "generateEmployeeId True 0 [ex_staffer ''GW-999999''] = Some ''GW-1000000''"
    using generateEmployeeId_ok [OF small, of 0] by (simp add: toString_million padStart_def)
next
  have t: "Number_toString 9007199254740992 = Some ''9007199254740992''"
    by (simp add: Number_toString_def toString_two_53)
  show "generateEmployeeId True 0 [ex_staffer ''GW-9007199254740993''] = Some ''GW-9007199254740992''"
    by (simp add: generateEmployeeId_def Let_def ex_scan_large fl_two_53_plus_one t padStart_def)
next
  show "1 + highestNumber (take 100 (rev [ex_staffer ''GW-9007199254740993''])) = 9007199254740994"
    unfolding highestNumber_def ex_numbers by simp
qed

end
